theory Spec2Isabelle
  imports Main "HOL-Library.Word"
begin

unbundle bit_operations_syntax

section \<open>Machine integers and kernel helpers\<close>

type_synonym u8 = "8 word"
type_synonym u16 = "16 word"
type_synonym u32 = "32 word"
type_synonym u64 = "64 word"

text \<open>
  The driver (\<^verbatim>\<open>drivers/net/can/spi/mcp2517fd.c\<close>) uses the bit helpers of the kernel
  headers, which are not part of the driver file. They are written out here with their
  usual meaning: \<^verbatim>\<open>BIT(n)\<close> is \<^verbatim>\<open>1UL << n\<close>, \<^verbatim>\<open>GENMASK(h, l)\<close> has the bits
  \<open>l..h\<close> set, \<^verbatim>\<open>ffs\<close> and \<^verbatim>\<open>fls\<close> give the 1-based index of the lowest and of
  the highest set bit (0 for the value 0), \<^verbatim>\<open>hweight_long\<close> counts the set bits and
  \<^verbatim>\<open>ALIGN(x, 4)\<close> rounds up to a multiple of 4. All values they are applied to are
  \<^verbatim>\<open>u32\<close>; a shift by 32 or more, undefined in C, gives 0 here.
\<close>

definition BIT :: "nat \<Rightarrow> u32" where
  "BIT n = push_bit n 1"

definition GENMASK :: "nat \<Rightarrow> nat \<Rightarrow> u32" where
  "GENMASK h l = push_bit l (mask (h + 1 - l))"

definition ffs :: "u32 \<Rightarrow> int" where
  "ffs x = (case find (bit x) [0..<32] of None \<Rightarrow> 0 | Some n \<Rightarrow> int n + 1)"

definition fls :: "u32 \<Rightarrow> int" where
  "fls x = (case find (bit x) (rev [0..<32]) of None \<Rightarrow> 0 | Some n \<Rightarrow> int n + 1)"

definition hweight_long :: "u32 \<Rightarrow> int" where
  "hweight_long x = int (length (filter (bit x) [0..<32]))"

definition ALIGN4 :: "nat \<Rightarrow> nat" where
  "ALIGN4 n = ((n + 3) div 4) * 4"

text \<open>Little-endian layout of a 32-bit value (\<^verbatim>\<open>cpu_to_le32\<close>, \<^verbatim>\<open>le32_to_cpu\<close>).\<close>

definition le32_bytes :: "u32 \<Rightarrow> u8 list" where
  "le32_bytes w = map (\<lambda>k. ucast (drop_bit (8 * k) w)) [0..<4]"

definition le32_of_bytes :: "u8 list \<Rightarrow> u32" where
  "le32_of_bytes bs = foldr (\<lambda>b w. ucast b OR push_bit 8 w) bs 0"

section \<open>Constants\<close>

text \<open>
  Constants of \<^verbatim>\<open>include/uapi/linux/can.h\<close>, \<^verbatim>\<open>can/error.h\<close>, \<^verbatim>\<open>can/netlink.h\<close>,
  \<^verbatim>\<open>linux/netdevice.h\<close> and \<^verbatim>\<open>errno.h\<close>, which the driver includes: the flag bits of
  a \<^verbatim>\<open>canid_t\<close>, the widths of the standard (11 bit) and extended (29 bit)
  identifiers, the FD frame flags, the error class, the return codes.
\<close>

definition CAN_EFF_FLAG :: u32 where "CAN_EFF_FLAG = 0x80000000"
definition CAN_RTR_FLAG :: u32 where "CAN_RTR_FLAG = 0x40000000"
definition CAN_SFF_MASK :: u32 where "CAN_SFF_MASK = 0x7FF"
definition CAN_SFF_ID_BITS :: nat where "CAN_SFF_ID_BITS = 11"
definition CAN_EFF_ID_BITS :: nat where "CAN_EFF_ID_BITS = 29"
definition CANFD_BRS :: u8 where "CANFD_BRS = 0x01"
definition CANFD_ESI :: u8 where "CANFD_ESI = 0x02"
definition CAN_ERR_CRTL :: u32 where "CAN_ERR_CRTL = 0x00000004"
definition CAN_ERR_CRTL_RX_OVERFLOW :: u8 where "CAN_ERR_CRTL_RX_OVERFLOW = 0x01"
definition CAN_CTRLMODE_FD :: u32 where "CAN_CTRLMODE_FD = 0x20"
definition CAN_MTU :: nat where "CAN_MTU = 16"
definition CANFD_MTU :: nat where "CANFD_MTU = 72"
definition NETDEV_TX_OK :: int where "NETDEV_TX_OK = 0x00"
definition NETDEV_TX_BUSY :: int where "NETDEV_TX_BUSY = 0x10"
definition IRQ_HANDLED :: int where "IRQ_HANDLED = 1"
definition EINVAL :: int where "EINVAL = 22"
definition ENOMEM :: int where "ENOMEM = 12"

text \<open>The constants defined at the top of the driver.\<close>

definition INSTRUCTION_READ :: u16 where "INSTRUCTION_READ = 0x3000"
definition INSTRUCTION_WRITE :: u16 where "INSTRUCTION_WRITE = 0x2000"
definition ADDRESS_MASK :: u16 where "ADDRESS_MASK = 0x0fff"

definition CAN_SFR_BASE :: "int \<Rightarrow> u32" where "CAN_SFR_BASE x = word_of_int (0x000 + x)"
definition CAN_INT :: u32 where "CAN_INT = CAN_SFR_BASE 0x1C"
definition CAN_INT_RXIF :: u32 where "CAN_INT_RXIF = BIT 1"
definition CAN_INT_TEFIF :: u32 where "CAN_INT_TEFIF = BIT 4"
definition CAN_INT_IE_SHIFT :: nat where "CAN_INT_IE_SHIFT = 16"
definition CAN_TEFCON :: u32 where "CAN_TEFCON = CAN_SFR_BASE 0x40"
definition CAN_TEFCON_UINC :: u32 where "CAN_TEFCON_UINC = BIT 8"
definition CAN_FIFOCON :: "int \<Rightarrow> u32" where "CAN_FIFOCON x = CAN_SFR_BASE (0x5C + 12 * (x - 1))"
definition CAN_FIFOCON_UINC :: u32 where "CAN_FIFOCON_UINC = BIT 8"
definition CAN_FIFOCON_TXREQ :: u32 where "CAN_FIFOCON_TXREQ = BIT 9"
definition CAN_FIFOCON_FRESET :: u32 where "CAN_FIFOCON_FRESET = BIT 10"
definition CAN_FIFOSTA :: "int \<Rightarrow> u32" where "CAN_FIFOSTA x = CAN_SFR_BASE (0x60 + 12 * (x - 1))"
definition CAN_FIFOSTA_RXOVIF :: u32 where "CAN_FIFOSTA_RXOVIF = BIT 3"

definition CAN_OBJ_ID_SID_BITS :: nat where "CAN_OBJ_ID_SID_BITS = 11"
definition CAN_OBJ_ID_SID_SHIFT :: nat where "CAN_OBJ_ID_SID_SHIFT = 0"
definition CAN_OBJ_ID_SID_MASK :: u32 where
  "CAN_OBJ_ID_SID_MASK =
     GENMASK (CAN_OBJ_ID_SID_SHIFT + CAN_OBJ_ID_SID_BITS - 1) CAN_OBJ_ID_SID_SHIFT"
definition CAN_OBJ_ID_EID_BITS :: nat where "CAN_OBJ_ID_EID_BITS = 18"
definition CAN_OBJ_ID_EID_SHIFT :: nat where "CAN_OBJ_ID_EID_SHIFT = 11"
definition CAN_OBJ_ID_EID_MASK :: u32 where
  "CAN_OBJ_ID_EID_MASK =
     GENMASK (CAN_OBJ_ID_EID_SHIFT + CAN_OBJ_ID_EID_BITS - 1) CAN_OBJ_ID_EID_SHIFT"

definition CAN_OBJ_FLAGS_DLC_BITS :: nat where "CAN_OBJ_FLAGS_DLC_BITS = 4"
definition CAN_OBJ_FLAGS_DLC_SHIFT :: nat where "CAN_OBJ_FLAGS_DLC_SHIFT = 0"
definition CAN_OBJ_FLAGS_DLC_MASK :: u32 where
  "CAN_OBJ_FLAGS_DLC_MASK =
     GENMASK (CAN_OBJ_FLAGS_DLC_SHIFT + CAN_OBJ_FLAGS_DLC_BITS - 1) CAN_OBJ_FLAGS_DLC_SHIFT"
definition CAN_OBJ_FLAGS_IDE :: u32 where "CAN_OBJ_FLAGS_IDE = BIT 4"
definition CAN_OBJ_FLAGS_RTR :: u32 where "CAN_OBJ_FLAGS_RTR = BIT 5"
definition CAN_OBJ_FLAGS_BRS :: u32 where "CAN_OBJ_FLAGS_BRS = BIT 6"
definition CAN_OBJ_FLAGS_FDF :: u32 where "CAN_OBJ_FLAGS_FDF = BIT 7"
definition CAN_OBJ_FLAGS_ESI :: u32 where "CAN_OBJ_FLAGS_ESI = BIT 8"
definition CAN_OBJ_FLAGS_SEQ_BITS :: nat where "CAN_OBJ_FLAGS_SEQ_BITS = 7"
definition CAN_OBJ_FLAGS_SEQ_SHIFT :: nat where "CAN_OBJ_FLAGS_SEQ_SHIFT = 9"
definition CAN_OBJ_FLAGS_SEQ_MASK :: u32 where
  "CAN_OBJ_FLAGS_SEQ_MASK =
     GENMASK (CAN_OBJ_FLAGS_SEQ_SHIFT + CAN_OBJ_FLAGS_SEQ_BITS - 1) CAN_OBJ_FLAGS_SEQ_SHIFT"

definition CAN_EFF_SID_SHIFT :: nat where "CAN_EFF_SID_SHIFT = CAN_EFF_ID_BITS - CAN_SFF_ID_BITS"
definition CAN_EFF_SID_BITS :: nat where "CAN_EFF_SID_BITS = CAN_SFF_ID_BITS"
definition CAN_EFF_SID_MASK :: u32 where
  "CAN_EFF_SID_MASK = GENMASK (CAN_EFF_SID_SHIFT + CAN_EFF_SID_BITS - 1) CAN_EFF_SID_SHIFT"
definition CAN_EFF_EID_SHIFT :: nat where "CAN_EFF_EID_SHIFT = 0"
definition CAN_EFF_EID_BITS :: nat where "CAN_EFF_EID_BITS = CAN_EFF_SID_SHIFT"
definition CAN_EFF_EID_MASK :: u32 where
  "CAN_EFF_EID_MASK = GENMASK (CAN_EFF_EID_SHIFT + CAN_EFF_EID_BITS - 1) CAN_EFF_EID_SHIFT"

definition FIFO_DATA :: "u32 \<Rightarrow> u32" where "FIFO_DATA x = 0x400 + x"

text \<open>\<^verbatim>\<open>sizeof(struct mcp2517fd_obj_tef)\<close>, \<^verbatim>\<open>sizeof(struct mcp2517fd_obj_tx)\<close> and
  \<^verbatim>\<open>sizeof(struct mcp2517fd_obj_rx)\<close>: three, two and three 32-bit words (the flexible
  array members have size 0).\<close>

definition sizeof_obj_tef :: nat where "sizeof_obj_tef = 12"
definition sizeof_obj_tx :: nat where "sizeof_obj_tx = 8"
definition sizeof_obj_rx :: nat where "sizeof_obj_rx = 12"

section \<open>Frame codec: identifiers\<close>

text \<open>
  \<^verbatim>\<open>mcp2517fd_canid_to_mcpid(can_id, &id, &flags)\<close>; the pair returned is
  \<open>(id, flags)\<close>. The C code holds \<^verbatim>\<open>sid\<close> and \<^verbatim>\<open>eid\<close> in an \<^verbatim>\<open>int\<close>; they are
  below \<open>2^11\<close> and \<open>2^18\<close>, so the shifts stay below \<open>2^29\<close> and agree with the
  unsigned ones.
\<close>

definition mcp2517fd_canid_to_mcpid :: "u32 \<Rightarrow> u32 \<times> u32" where
  "mcp2517fd_canid_to_mcpid can_id =
     (let (id, flags) =
        (if can_id AND CAN_EFF_FLAG \<noteq> 0 then
           (let sid = drop_bit CAN_EFF_SID_SHIFT (can_id AND CAN_EFF_SID_MASK);
                eid = drop_bit CAN_EFF_EID_SHIFT (can_id AND CAN_EFF_EID_MASK)
            in (push_bit CAN_OBJ_ID_EID_SHIFT eid OR push_bit CAN_OBJ_ID_SID_SHIFT sid,
                CAN_OBJ_FLAGS_IDE))
         else (can_id AND CAN_SFF_MASK, 0))
      in (id, flags OR (if can_id AND CAN_RTR_FLAG \<noteq> 0 then CAN_OBJ_FLAGS_RTR else 0)))"

text \<open>\<^verbatim>\<open>mcp2517fd_mcpid_to_canid(mcpid, mcpflags, &id)\<close>; the value returned is \<open>id\<close>.\<close>

definition mcp2517fd_mcpid_to_canid :: "u32 \<Rightarrow> u32 \<Rightarrow> u32" where
  "mcp2517fd_mcpid_to_canid mcpid mcpflags =
     (let sid = drop_bit CAN_OBJ_ID_SID_SHIFT (mcpid AND CAN_OBJ_ID_SID_MASK);
          eid = drop_bit CAN_OBJ_ID_EID_SHIFT (mcpid AND CAN_OBJ_ID_EID_MASK);
          id = (if mcpflags AND CAN_OBJ_FLAGS_IDE \<noteq> 0
                then push_bit CAN_EFF_EID_SHIFT eid OR push_bit CAN_EFF_SID_SHIFT sid
                     OR CAN_EFF_FLAG
                else sid)
      in id OR (if mcpflags AND CAN_OBJ_FLAGS_RTR \<noteq> 0 then CAN_RTR_FLAG else 0))"

section \<open>Frame codec: length codes\<close>

text \<open>
  Modelled from the spec: \<^verbatim>\<open>can_dlc2len\<close> and \<^verbatim>\<open>can_len2dlc\<close> belong to the CAN
  core of the kernel (\<^verbatim>\<open>drivers/net/can/dev.c\<close>), which is not among the sources of
  the driver. The spec gives the table: codes 0 to 8 stand for 0 to 8 bytes, codes 9 to
  15 for 12, 16, 20, 24, 32, 48 and 64 bytes, and a length is rounded up to the nearest
  value of the table. Both are tables here, as in the CAN core; a code is masked to four
  bits and a length above 64 gets the code 15.
\<close>

definition dlc2len :: "nat list" where
  "dlc2len = [0, 1, 2, 3, 4, 5, 6, 7, 8, 12, 16, 20, 24, 32, 48, 64]"

definition len2dlc :: "nat list" where
  "len2dlc = [0, 1, 2, 3, 4, 5, 6, 7, 8,
              9, 9, 9, 9,
              10, 10, 10, 10,
              11, 11, 11, 11,
              12, 12, 12, 12,
              13, 13, 13, 13, 13, 13, 13, 13,
              14, 14, 14, 14, 14, 14, 14, 14,
              14, 14, 14, 14, 14, 14, 14, 14,
              15, 15, 15, 15, 15, 15, 15, 15,
              15, 15, 15, 15, 15, 15, 15, 15]"

definition can_dlc2len :: "u8 \<Rightarrow> u8" where
  "can_dlc2len can_dlc = of_nat (dlc2len ! unat (can_dlc AND 0x0F))"

definition can_len2dlc :: "u8 \<Rightarrow> u8" where
  "can_len2dlc len = (if 64 < len then 0xF else of_nat (len2dlc ! unat len))"

section \<open>Register transport\<close>

text \<open>
  The serial bus is the environment of the driver. A transfer is either a write of some
  bytes, or a write followed by a read of a number of bytes in the same transaction
  (\<^verbatim>\<open>mcp2517fd_write_then_read\<close>, in its half-duplex and in its full-duplex form). The
  device keeps the list of the transfers handed to the bus, and answers the \<open>n\<close>-th of
  them with a result (0 for success, a negative errno otherwise, which also stands for a
  failed allocation of the bounce buffer) and the bytes read.
\<close>

datatype spi_xfer =
    Spi_write "u8 list"
  | Spi_write_then_read "u8 list" nat

record spi_device =
  spi_reply :: "nat \<Rightarrow> spi_xfer \<Rightarrow> int \<times> (nat \<Rightarrow> u8)"
  spi_xfers :: "spi_xfer list"

definition mcp2517fd_sync_transfer ::
  "spi_device \<Rightarrow> spi_xfer \<Rightarrow> (int \<times> (nat \<Rightarrow> u8)) \<times> spi_device" where
  "mcp2517fd_sync_transfer spi xfer =
     (spi_reply spi (length (spi_xfers spi)) xfer, spi\<lparr>spi_xfers := spi_xfers spi @ [xfer]\<rparr>)"

text \<open>The bytes read are meaningful when the result is 0; the receive buffer of the caller
  is left as it was otherwise.\<close>

definition mcp2517fd_write_then_read ::
  "spi_device \<Rightarrow> u8 list \<Rightarrow> nat \<Rightarrow> (int \<times> u8 list) \<times> spi_device" where
  "mcp2517fd_write_then_read spi tx_buf rx_len =
     (let ((ret, rx), spi') = mcp2517fd_sync_transfer spi (Spi_write_then_read tx_buf rx_len)
      in ((ret, map rx [0..<rx_len]), spi'))"

definition mcp2517fd_write :: "spi_device \<Rightarrow> u8 list \<Rightarrow> int \<times> spi_device" where
  "mcp2517fd_write spi tx_buf =
     (let ((ret, rx), spi') = mcp2517fd_sync_transfer spi (Spi_write tx_buf)
      in (ret, spi'))"

definition mcp2517fd_write_then_write ::
  "spi_device \<Rightarrow> u8 list \<Rightarrow> u8 list \<Rightarrow> int \<times> spi_device" where
  "mcp2517fd_write_then_write spi tx_buf tx2_buf =
     (let ((ret, rx), spi') = mcp2517fd_sync_transfer spi (Spi_write (tx_buf @ tx2_buf))
      in (ret, spi'))"

text \<open>\<^verbatim>\<open>mcp2517fd_calc_cmd_addr(cmd, addr, data)\<close>: the two command bytes.\<close>

definition mcp2517fd_calc_cmd_addr :: "u16 \<Rightarrow> u16 \<Rightarrow> u8 list" where
  "mcp2517fd_calc_cmd_addr cmd addr =
     (let cmd = cmd OR (addr AND ADDRESS_MASK)
      in [ucast (drop_bit 8 cmd AND 0xff), ucast (drop_bit 0 cmd AND 0xff)])"

text \<open>\<^verbatim>\<open>mcp2517fd_cmd_readn(spi, reg, data, n, speed_hz)\<close>: the register address is a
  \<^verbatim>\<open>u32\<close> that the command takes as a \<^verbatim>\<open>u16\<close>.\<close>

definition mcp2517fd_cmd_readn ::
  "spi_device \<Rightarrow> u32 \<Rightarrow> nat \<Rightarrow> (int \<times> u8 list) \<times> spi_device" where
  "mcp2517fd_cmd_readn spi reg n =
     (let cmd = mcp2517fd_calc_cmd_addr INSTRUCTION_READ (ucast reg)
      in mcp2517fd_write_then_read spi cmd n)"

text \<open>
  \<^verbatim>\<open>mcp2517fd_cmd_read_mask(spi, reg, data, mask, speed_hz)\<close>. The result is \<open>Inl ret\<close>
  for a return value other than 0 and \<open>Inr v\<close> when it returns 0 with \<open>*data = v\<close>.
  \<open>*data\<close> is four bytes of memory, zeroed first, of which the bytes from
  \<open>first_byte\<close> on receive the bytes read; \<^verbatim>\<open>le32_to_cpu\<close> makes the value of it.
\<close>

definition mcp2517fd_cmd_read_mask ::
  "spi_device \<Rightarrow> u32 \<Rightarrow> u32 \<Rightarrow> (int + u32) \<times> spi_device" where
  "mcp2517fd_cmd_read_mask spi reg msk =
     (if msk = 0 then (Inl (- EINVAL), spi)
      else
        (let first_byte = nat ((ffs msk - 1) div 8);
             last_byte = nat ((fls msk - 1) div 8);
             len_byte = last_byte - first_byte + 1;
             ((ret, rx), spi') = mcp2517fd_cmd_readn spi reg len_byte
         in if ret \<noteq> 0 then (Inl ret, spi')
            else (Inr (le32_of_bytes
                        (take 4 (replicate first_byte 0 @ rx @ replicate 4 0))), spi')))"

definition mcp2517fd_cmd_read :: "spi_device \<Rightarrow> u32 \<Rightarrow> (int + u32) \<times> spi_device" where
  "mcp2517fd_cmd_read spi reg = mcp2517fd_cmd_read_mask spi reg (- 1)"

text \<open>\<^verbatim>\<open>mcp2517fd_cmd_write_mask(spi, reg, data, mask, speed_hz)\<close>: the return value.\<close>

definition mcp2517fd_cmd_write_mask ::
  "spi_device \<Rightarrow> u32 \<Rightarrow> u32 \<Rightarrow> u32 \<Rightarrow> int \<times> spi_device" where
  "mcp2517fd_cmd_write_mask spi reg data msk =
     (if msk = 0 then (- EINVAL, spi)
      else
        (let first_byte = nat ((ffs msk - 1) div 8);
             last_byte = nat ((fls msk - 1) div 8);
             len_byte = last_byte - first_byte + 1;
             cmd = mcp2517fd_calc_cmd_addr INSTRUCTION_WRITE (ucast (reg + of_nat first_byte))
         in mcp2517fd_write_then_write spi cmd
              (take len_byte (drop first_byte (le32_bytes data)))))"

definition mcp2517fd_cmd_write :: "spi_device \<Rightarrow> u32 \<Rightarrow> u32 \<Rightarrow> int \<times> spi_device" where
  "mcp2517fd_cmd_write spi reg data = mcp2517fd_cmd_write_mask spi reg data (- 1)"

section \<open>Frames, the network device and the driver state\<close>

text \<open>
  \<^verbatim>\<open>struct can_frame\<close> and \<^verbatim>\<open>struct canfd_frame\<close>; the payload array (8 and 64 bytes)
  is a function from the index to the byte. A socket buffer holds a classic frame or an
  FD frame (\<^verbatim>\<open>can_is_canfd_skb\<close> tells them apart by their size).
\<close>

record can_frame =
  cf_can_id :: u32
  cf_can_dlc :: u8
  cf_data :: "nat \<Rightarrow> u8"

record canfd_frame =
  fd_can_id :: u32
  fd_len :: u8
  fd_flags :: u8
  fd_data :: "nat \<Rightarrow> u8"

datatype sk_buff =
    Skb_can can_frame
  | Skb_canfd canfd_frame

datatype log_msg =
    Err_tx_fifo_not_valid int
  | Warn_hard_xmit_while_busy
  | Err_cannot_allocate_rx_skb
  | Err_cannot_allocate_error_skb

text \<open>
  The network device as far as the driver touches it: the counters of \<^verbatim>\<open>net->stats\<close>
  (unsigned long in C, natural numbers here), the state of the transmit queue, the echo
  buffers and the frames handed to the stack with \<^verbatim>\<open>netif_rx_ni\<close>. Whether the \<open>n\<close>-th
  allocation of a socket buffer succeeds is given by the environment.
\<close>

record net_device =
  rx_packets :: nat
  rx_bytes :: nat
  rx_dropped :: nat
  rx_errors :: nat
  rx_over_errors :: nat
  tx_packets :: nat
  tx_bytes :: nat
  tx_errors :: nat
  tx_dropped :: nat
  queue_stopped :: bool
  echo_skb :: "nat \<rightharpoonup> sk_buff"
  netif_rx :: "sk_buff list"
  skb_alloc_ok :: "nat \<Rightarrow> bool"
  skb_allocs :: nat

definition netif_start_queue :: "net_device \<Rightarrow> net_device" where
  "netif_start_queue dev = dev\<lparr>queue_stopped := False\<rparr>"

definition netif_stop_queue :: "net_device \<Rightarrow> net_device" where
  "netif_stop_queue dev = dev\<lparr>queue_stopped := True\<rparr>"

definition netif_rx_ni :: "sk_buff \<Rightarrow> net_device \<Rightarrow> net_device" where
  "netif_rx_ni skb dev = dev\<lparr>netif_rx := netif_rx dev @ [skb]\<rparr>"

definition alloc_skb :: "net_device \<Rightarrow> bool \<times> net_device" where
  "alloc_skb dev = (skb_alloc_ok dev (skb_allocs dev), dev\<lparr>skb_allocs := skb_allocs dev + 1\<rparr>)"

text \<open>
  Modelled from the spec: \<^verbatim>\<open>can_put_echo_skb\<close> and \<^verbatim>\<open>can_get_echo_skb\<close> of the CAN
  core are not among the sources of the driver. The first keeps the frame in flight for
  its ring; the second, in the words of the spec, notifies the delivery sink that the
  in-flight frame for that ring is confirmed, so that its resources may be released.
\<close>

definition can_put_echo_skb :: "sk_buff \<Rightarrow> net_device \<Rightarrow> nat \<Rightarrow> net_device" where
  "can_put_echo_skb skb dev idx =
     (case echo_skb dev idx of
        None \<Rightarrow> dev\<lparr>echo_skb := (echo_skb dev)(idx \<mapsto> skb)\<rparr>
      | Some old \<Rightarrow> dev)"

definition can_get_echo_skb :: "net_device \<Rightarrow> nat \<Rightarrow> net_device" where
  "can_get_echo_skb dev idx =
     (case echo_skb dev idx of
        None \<Rightarrow> dev
      | Some skb \<Rightarrow> (netif_rx_ni skb dev)\<lparr>echo_skb := (echo_skb dev)(idx := None)\<rparr>)"

text \<open>The block of status registers read in one transaction (\<^verbatim>\<open>priv->status\<close>).\<close>

record mcp_status =
  st_intf :: u32
  st_rxif :: u32
  st_txif :: u32
  st_rxovif :: u32
  st_txatif :: u32
  st_txreq :: u32
  st_trec :: u32
  st_bdiag0 :: u32
  st_bdiag1 :: u32

definition sizeof_status :: nat where "sizeof_status = 36"

text \<open>
  \<^verbatim>\<open>struct mcp2517fd_priv\<close>, with the fields that the transmit path, the interrupt
  thread and the ring set-up use. \<^verbatim>\<open>fifo_address\<close> and \<^verbatim>\<open>fifo_usage\<close> are arrays of 32
  entries and \<^verbatim>\<open>fifo_data\<close> is a buffer of 2048 bytes; they are functions from the
  index. \<open>dev_log\<close> collects the messages of \<^verbatim>\<open>dev_err\<close> and \<^verbatim>\<open>dev_warn\<close>, and
  \<open>tx_work_queued\<close> records \<^verbatim>\<open>queue_work(priv->wq, &priv->tx_work)\<close>.
\<close>

record mcp2517fd_priv =
  can_ctrlmode :: u32
  net :: net_device
  spi :: spi_device
  tx_work_skb :: "sk_buff option"
  tx_work_queued :: bool
  payload_size :: int
  payload_mode :: u8
  tef_address_start :: u32
  tef_address_end :: u32
  tef_address :: u32
  fifo_address :: "nat \<Rightarrow> u32"
  tx_fifos :: u8
  tx_fifo_start :: u8
  tx_fifo_mask :: u32
  tx_pending_mask :: u32
  rx_fifos :: u8
  rx_fifo_depth :: u8
  rx_fifo_start :: u8
  rx_fifo_mask :: u32
  rx_overflow :: u64
  status :: mcp_status
  force_quit :: int
  fifo_data :: "nat \<Rightarrow> u8"
  fifo_usage :: "nat \<Rightarrow> u64"
  dev_log :: "log_msg list"

section \<open>Transmit path\<close>

text \<open>
  \<^verbatim>\<open>mcp2517fd_transmit_message_common(spi, fifo, obj, len, data)\<close>. The buffer \<open>d\<close> lives
  on the stack and only its first byte is cleared (\<^verbatim>\<open>memset(d, 0, sizeof( *d))\<close>), so the
  padding bytes after the payload are what the stack held: \<open>d0\<close> is that content.
\<close>

definition mcp2517fd_transmit_message_common ::
  "(nat \<Rightarrow> u8) \<Rightarrow> mcp2517fd_priv \<Rightarrow> int \<Rightarrow> u32 \<times> u32 \<Rightarrow> nat \<Rightarrow> (nat \<Rightarrow> u8)
     \<Rightarrow> int \<times> mcp2517fd_priv" where
  "mcp2517fd_transmit_message_common d0 priv fifo obj len payload =
     (let addr = FIFO_DATA (fifo_address priv (nat fifo));
          (obj_id, obj_flags) = obj;
          obj_flags = obj_flags OR push_bit CAN_OBJ_FLAGS_SEQ_SHIFT (word_of_int fifo);
          d = mcp2517fd_calc_cmd_addr INSTRUCTION_WRITE (ucast addr)
                @ le32_bytes obj_id @ le32_bytes obj_flags
                @ map payload [0..<len]
                @ map d0 [2 + sizeof_obj_tx + len..<2 + sizeof_obj_tx + ALIGN4 len];
          (ret, spi') = mcp2517fd_write (spi priv) d;
          priv = priv\<lparr>spi := spi'\<rparr>
      in if ret \<noteq> 0 then (NETDEV_TX_BUSY, priv)
         else
           (let (ret, spi') = mcp2517fd_cmd_write_mask (spi priv) (CAN_FIFOCON fifo)
                                (CAN_FIFOCON_TXREQ OR CAN_FIFOCON_UINC)
                                (CAN_FIFOCON_TXREQ OR CAN_FIFOCON_UINC);
                priv = priv\<lparr>spi := spi'\<rparr>
            in if ret \<noteq> 0 then (NETDEV_TX_BUSY, priv) else (NETDEV_TX_OK, priv)))"

text \<open>\<^verbatim>\<open>mcp2517fd_transmit_fdmessage(spi, fifo, frame)\<close>: the return value, the frame as
  the function leaves it, and the state.\<close>

definition mcp2517fd_transmit_fdmessage ::
  "(nat \<Rightarrow> u8) \<Rightarrow> mcp2517fd_priv \<Rightarrow> int \<Rightarrow> canfd_frame
     \<Rightarrow> int \<times> canfd_frame \<times> mcp2517fd_priv" where
  "mcp2517fd_transmit_fdmessage d0 priv fifo frame =
     (let dlc = can_len2dlc (fd_len frame);
          frame = frame\<lparr>fd_len := can_dlc2len dlc\<rparr>;
          (obj_id, obj_flags) = mcp2517fd_canid_to_mcpid (fd_can_id frame);
          obj_flags = obj_flags OR push_bit CAN_OBJ_FLAGS_DLC_SHIFT (ucast dlc);
          obj_flags = obj_flags
            OR (if fd_can_id frame AND CAN_EFF_FLAG \<noteq> 0 then CAN_OBJ_FLAGS_IDE else 0);
          obj_flags = obj_flags
            OR (if fd_can_id frame AND CAN_RTR_FLAG \<noteq> 0 then CAN_OBJ_FLAGS_RTR else 0);
          obj_flags = obj_flags
            OR (if fd_flags frame AND CANFD_BRS \<noteq> 0 then CAN_OBJ_FLAGS_BRS else 0);
          obj_flags = obj_flags
            OR (if fd_flags frame AND CANFD_ESI \<noteq> 0 then CAN_OBJ_FLAGS_ESI else 0);
          obj_flags = obj_flags OR CAN_OBJ_FLAGS_FDF;
          (ret, priv) = mcp2517fd_transmit_message_common d0 priv fifo (obj_id, obj_flags)
                          (unat (fd_len frame)) (fd_data frame)
      in (ret, frame, priv))"

text \<open>\<^verbatim>\<open>mcp2517fd_transmit_message(spi, fifo, frame)\<close>.\<close>

definition mcp2517fd_transmit_message ::
  "(nat \<Rightarrow> u8) \<Rightarrow> mcp2517fd_priv \<Rightarrow> int \<Rightarrow> can_frame
     \<Rightarrow> int \<times> can_frame \<times> mcp2517fd_priv" where
  "mcp2517fd_transmit_message d0 priv fifo frame =
     (let frame = (if cf_can_dlc frame > 8 then frame\<lparr>cf_can_dlc := 8\<rparr> else frame);
          (obj_id, obj_flags) = mcp2517fd_canid_to_mcpid (cf_can_id frame);
          obj_flags = obj_flags OR push_bit CAN_OBJ_FLAGS_DLC_SHIFT (ucast (cf_can_dlc frame));
          obj_flags = obj_flags
            OR (if cf_can_id frame AND CAN_EFF_FLAG \<noteq> 0 then CAN_OBJ_FLAGS_IDE else 0);
          obj_flags = obj_flags
            OR (if cf_can_id frame AND CAN_RTR_FLAG \<noteq> 0 then CAN_OBJ_FLAGS_RTR else 0);
          (ret, priv) = mcp2517fd_transmit_message_common d0 priv fifo (obj_id, obj_flags)
                          (unat (cf_can_dlc frame)) (cf_data frame)
      in (ret, frame, priv))"

text \<open>
  The choice of the fifo at the head of \<^verbatim>\<open>mcp2517fd_tx_work_handler\<close> (``decide on fifo
  to assign''); \<^verbatim>\<open>fifo\<close> is an \<^verbatim>\<open>int\<close> and can be \<open>-1\<close>.
\<close>

definition tx_work_fifo :: "mcp2517fd_priv \<Rightarrow> int" where
  "tx_work_fifo priv =
     (let pending_mask = tx_pending_mask priv
      in if pending_mask \<noteq> 0 then ffs pending_mask - 2
         else uint (tx_fifo_start priv) + uint (tx_fifos priv) - 1)"

text \<open>
  \<^verbatim>\<open>mcp2517fd_tx_work_handler(ws)\<close>. The result is \<open>None\<close> where the C code would
  dereference \<^verbatim>\<open>priv->tx_work_skb\<close> although it is \<^verbatim>\<open>NULL\<close>. The frame is changed in
  place by the two transmit functions, so the echo buffer gets the changed frame.
\<close>

definition mcp2517fd_tx_work_handler ::
  "(nat \<Rightarrow> u8) \<Rightarrow> mcp2517fd_priv \<Rightarrow> mcp2517fd_priv option" where
  "mcp2517fd_tx_work_handler d0 priv =
     (let skb = tx_work_skb priv;
          fifo = tx_work_fifo priv
      in if fifo < uint (tx_fifo_start priv)
         then Some (priv\<lparr>dev_log := dev_log priv @ [Err_tx_fifo_not_valid fifo]\<rparr>)
         else
           (let priv = priv\<lparr>tx_work_skb := None\<rparr>;
                priv = (if fifo > uint (tx_fifo_start priv)
                        then priv\<lparr>net := netif_start_queue (net priv)\<rparr> else priv);
                priv = priv\<lparr>tx_pending_mask := tx_pending_mask priv OR BIT (nat fifo)\<rparr>;
                priv = priv\<lparr>fifo_usage :=
                         (fifo_usage priv)(nat fifo := fifo_usage priv (nat fifo) + 1)\<rparr>
            in case skb of
                 None \<Rightarrow> None
               | Some (Skb_canfd frame) \<Rightarrow>
                   (let (ret, frame, priv) = mcp2517fd_transmit_fdmessage d0 priv fifo frame
                    in Some (if ret = NETDEV_TX_OK
                             then priv\<lparr>net := can_put_echo_skb (Skb_canfd frame) (net priv)
                                                (nat fifo)\<rparr>
                             else priv))
               | Some (Skb_can frame) \<Rightarrow>
                   (let (ret, frame, priv) = mcp2517fd_transmit_message d0 priv fifo frame
                    in Some (if ret = NETDEV_TX_OK
                             then priv\<lparr>net := can_put_echo_skb (Skb_can frame) (net priv)
                                                (nat fifo)\<rparr>
                             else priv))))"

text \<open>
  \<^verbatim>\<open>mcp2517fd_start_xmit(skb, net)\<close>. \<^verbatim>\<open>can_dropped_invalid_skb\<close> is a helper of the
  CAN core and is a parameter here: it tells whether it dropped the buffer, and returns
  the device with its counters.
\<close>

definition mcp2517fd_start_xmit ::
  "(net_device \<Rightarrow> sk_buff \<Rightarrow> bool \<times> net_device) \<Rightarrow> sk_buff \<Rightarrow> mcp2517fd_priv
     \<Rightarrow> int \<times> mcp2517fd_priv" where
  "mcp2517fd_start_xmit can_dropped_invalid_skb skb priv =
     (if tx_work_skb priv \<noteq> None
      then (NETDEV_TX_BUSY, priv\<lparr>dev_log := dev_log priv @ [Warn_hard_xmit_while_busy]\<rparr>)
      else
        (let (dropped, dev) = can_dropped_invalid_skb (net priv) skb;
             priv = priv\<lparr>net := dev\<rparr>
         in if dropped then (NETDEV_TX_OK, priv)
            else (NETDEV_TX_OK,
                  priv\<lparr>net := netif_stop_queue (net priv),
                       tx_work_skb := Some skb,
                       tx_work_queued := True\<rparr>)))"

section \<open>Ring set-up\<close>

text \<open>
  Three parts of \<^verbatim>\<open>mcp2517fd_setup_fifo\<close>: the choice of the rings by the MTU
  (\<^verbatim>\<open>switch (net->mtu)\<close>, \<open>None\<close> for \<^verbatim>\<open>-EINVAL\<close>), the value written to
  \<^verbatim>\<open>CAN_TEFCON\<close> to size the completion ring, whose field \<^verbatim>\<open>FSIZE\<close> holds the number
  of slots minus one, and the addresses of the completion ring, from the value \<open>val\<close>
  read in \<^verbatim>\<open>CAN_TEFUA\<close>.
\<close>

definition CAN_TXQCON_PLSIZE_8 :: u8 where "CAN_TXQCON_PLSIZE_8 = 0"
definition CAN_TXQCON_PLSIZE_64 :: u8 where "CAN_TXQCON_PLSIZE_64 = 7"
definition CAN_TEFCON_TEFNEIE :: u32 where "CAN_TEFCON_TEFNEIE = BIT 0"
definition CAN_TEFCON_TEFTSEN :: u32 where "CAN_TEFCON_TEFTSEN = BIT 5"
definition CAN_TEFCON_FRESET :: u32 where "CAN_TEFCON_FRESET = BIT 10"
definition CAN_TEFCON_FSIZE_BITS :: nat where "CAN_TEFCON_FSIZE_BITS = 5"
definition CAN_TEFCON_FSIZE_SHIFT :: nat where "CAN_TEFCON_FSIZE_SHIFT = 24"
definition CAN_TEFCON_FSIZE_MASK :: u32 where
  "CAN_TEFCON_FSIZE_MASK =
     GENMASK (CAN_TEFCON_FSIZE_SHIFT + CAN_TEFCON_FSIZE_BITS - 1) CAN_TEFCON_FSIZE_SHIFT"

definition setup_fifo_rings :: "nat \<Rightarrow> mcp2517fd_priv \<Rightarrow> mcp2517fd_priv option" where
  "setup_fifo_rings mtu priv =
     (if mtu = CAN_MTU then
        Some (priv\<lparr>payload_size := 8, payload_mode := CAN_TXQCON_PLSIZE_8,
                   tx_fifo_start := 1, tx_fifos := 7,
                   rx_fifo_start := 8, rx_fifos := 24, rx_fifo_depth := 1\<rparr>)
      else if mtu = CANFD_MTU then
        Some (priv\<lparr>payload_size := 64, payload_mode := CAN_TXQCON_PLSIZE_64,
                   tx_fifo_start := 1, tx_fifos := 7,
                   rx_fifo_start := 8, rx_fifos := 19, rx_fifo_depth := 1\<rparr>)
      else None)"

definition setup_fifo_tefcon :: "mcp2517fd_priv \<Rightarrow> u32" where
  "setup_fifo_tefcon priv =
     CAN_TEFCON_FRESET OR CAN_TEFCON_TEFNEIE OR CAN_TEFCON_TEFTSEN
       OR push_bit CAN_TEFCON_FSIZE_SHIFT (word_of_int (uint (tx_fifos priv) - 1))"

definition setup_fifo_tef_address :: "u32 \<Rightarrow> mcp2517fd_priv \<Rightarrow> mcp2517fd_priv" where
  "setup_fifo_tef_address val priv =
     (let priv = priv\<lparr>tef_address := val\<rparr>;
          priv = priv\<lparr>tef_address_start := val\<rparr>
      in priv\<lparr>tef_address_end :=
                tef_address_start priv
                  + word_of_int ((uint (tx_fifos priv) + 1) * int sizeof_obj_tef) - 1\<rparr>)"

section \<open>Completion retirement\<close>

text \<open>
  \<^verbatim>\<open>struct mcp2517fd_obj_tef\<close>. The bytes read go into the structure as they come; the
  host is little-endian (as the boards this kernel is for), so they are the fields.
\<close>

record mcp2517fd_obj_tef =
  tef_id :: u32
  tef_flags :: u32
  tef_ts :: u32

definition obj_tef_of_bytes :: "u8 list \<Rightarrow> mcp2517fd_obj_tef" where
  "obj_tef_of_bytes bs =
     \<lparr>tef_id = le32_of_bytes (take 4 bs),
      tef_flags = le32_of_bytes (take 4 (drop 4 bs)),
      tef_ts = le32_of_bytes (take 4 (drop 8 bs))\<rparr>"

text \<open>
  The body of the loop of \<^verbatim>\<open>mcp2517fd_can_ist_handle_tefif\<close>. The results of the two
  bus operations are not looked at in the C code; when the read fails, \<open>tef\<close> keeps
  what it held. The sequence tag has 7 bits; \<^verbatim>\<open>BIT(fifo)\<close> for a tag of 32 or more
  contributes nothing to the 32-bit mask.
\<close>

definition tefif_body ::
  "mcp2517fd_obj_tef \<Rightarrow> u32 \<Rightarrow> mcp2517fd_priv \<Rightarrow> mcp2517fd_obj_tef \<times> u32 \<times> mcp2517fd_priv" where
  "tefif_body tef msk priv =
     (let ((ret, rx), spi') = mcp2517fd_cmd_readn (spi priv) (FIFO_DATA (tef_address priv))
                                sizeof_obj_tef;
          tef = (if ret = 0 then obj_tef_of_bytes rx else tef);
          (ret, spi') = mcp2517fd_cmd_write_mask spi' CAN_TEFCON CAN_TEFCON_UINC CAN_TEFCON_UINC;
          priv = priv\<lparr>spi := spi'\<rparr>;
          fifo = unat (drop_bit CAN_OBJ_FLAGS_SEQ_SHIFT (tef_flags tef AND CAN_OBJ_FLAGS_SEQ_MASK));
          priv = priv\<lparr>net := can_get_echo_skb (net priv) fifo\<rparr>;
          priv = priv\<lparr>tef_address := tef_address priv + of_nat sizeof_obj_tef\<rparr>;
          priv = (if tef_address priv > tef_address_end priv
                  then priv\<lparr>tef_address := tef_address_start priv\<rparr> else priv);
          msk = msk OR BIT fifo;
          priv = priv\<lparr>net := (net priv)\<lparr>tx_packets := tx_packets (net priv) + 1,
                                        tx_bytes := tx_bytes (net priv) + 0\<rparr>\<rparr>
      in (tef, msk, priv))"

text \<open>The loop \<^verbatim>\<open>for (i = 0; i < count; i++)\<close>, by the number of rounds left.\<close>

fun tefif_loop ::
  "nat \<Rightarrow> mcp2517fd_obj_tef \<Rightarrow> u32 \<Rightarrow> mcp2517fd_priv \<Rightarrow> u32 \<times> mcp2517fd_priv" where
  "tefif_loop 0 tef msk priv = (msk, priv)"
| "tefif_loop (Suc n) tef msk priv =
     (case tefif_body tef msk priv of (tef, msk, priv) \<Rightarrow> tefif_loop n tef msk priv)"

text \<open>\<^verbatim>\<open>mcp2517fd_can_ist_handle_tefif(spi)\<close>; \<open>tef0\<close> is what the structure on the stack
  holds before the first read. \<^verbatim>\<open>count\<close> is an \<^verbatim>\<open>int\<close>: the loop does not run when
  it is negative.\<close>

definition tefif_count :: "mcp2517fd_priv \<Rightarrow> int" where
  "tefif_count priv =
     hweight_long (tx_pending_mask priv) - hweight_long (st_txreq (status priv))"

definition mcp2517fd_can_ist_handle_tefif ::
  "mcp2517fd_obj_tef \<Rightarrow> mcp2517fd_priv \<Rightarrow> int \<times> mcp2517fd_priv" where
  "mcp2517fd_can_ist_handle_tefif tef0 priv =
     (let count = tefif_count priv;
          (msk, priv) = tefif_loop (nat count) tef0 0 priv
      in (0, priv\<lparr>tx_pending_mask := tx_pending_mask priv AND NOT msk\<rparr>))"

section \<open>Receive drain\<close>

text \<open>
  \<^verbatim>\<open>struct mcp2517fd_obj_rx\<close> as it lies in \<^verbatim>\<open>priv->fifo_data\<close> at the offset \<open>off\<close>
  (little-endian host: the conversion of the three header words in place changes
  nothing).
\<close>

record mcp2517fd_obj_rx =
  rx_id :: u32
  rx_flags :: u32
  rx_ts :: u32
  rx_data :: "nat \<Rightarrow> u8"

definition obj_rx_at :: "(nat \<Rightarrow> u8) \<Rightarrow> nat \<Rightarrow> mcp2517fd_obj_rx" where
  "obj_rx_at mem off =
     \<lparr>rx_id = le32_of_bytes (map (\<lambda>k. mem (off + k)) [0..<4]),
      rx_flags = le32_of_bytes (map (\<lambda>k. mem (off + 4 + k)) [0..<4]),
      rx_ts = le32_of_bytes (map (\<lambda>k. mem (off + 8 + k)) [0..<4]),
      rx_data = (\<lambda>k. mem (off + sizeof_obj_rx + k))\<rparr>"

text \<open>\<^verbatim>\<open>mcp2517fd_can_transform_rx_fd(spi, rx)\<close>; the frame of a fresh buffer is zeroed.\<close>

definition mcp2517fd_can_transform_rx_fd ::
  "mcp2517fd_priv \<Rightarrow> mcp2517fd_obj_rx \<Rightarrow> int \<times> mcp2517fd_priv" where
  "mcp2517fd_can_transform_rx_fd priv rx =
     (let (ok, dev) = alloc_skb (net priv)
      in if \<not> ok
         then (- ENOMEM, priv\<lparr>dev_log := dev_log priv @ [Err_cannot_allocate_rx_skb],
                               net := dev\<lparr>rx_dropped := rx_dropped dev + 1\<rparr>\<rparr>)
         else
           (let len = can_dlc2len (ucast (drop_bit CAN_OBJ_FLAGS_DLC_SHIFT
                                            (rx_flags rx AND CAN_OBJ_FLAGS_DLC_MASK)));
                frame = \<lparr>fd_can_id = mcp2517fd_mcpid_to_canid (rx_id rx) (rx_flags rx),
                         fd_len = len,
                         fd_flags =
                           (if rx_flags rx AND CAN_OBJ_FLAGS_BRS \<noteq> 0 then CANFD_BRS else 0)
                           OR (if rx_flags rx AND CAN_OBJ_FLAGS_ESI \<noteq> 0 then CANFD_ESI else 0),
                         fd_data = (\<lambda>k. if k < unat len then rx_data rx k else 0)\<rparr>;
                dev = dev\<lparr>rx_packets := rx_packets dev + 1\<rparr>;
                dev = dev\<lparr>rx_bytes := rx_bytes dev + unat len\<rparr>
            in (0, priv\<lparr>net := netif_rx_ni (Skb_canfd frame) dev\<rparr>)))"

text \<open>\<^verbatim>\<open>mcp2517fd_can_transform_rx_normal(spi, rx)\<close>.\<close>

definition mcp2517fd_can_transform_rx_normal ::
  "mcp2517fd_priv \<Rightarrow> mcp2517fd_obj_rx \<Rightarrow> int \<times> mcp2517fd_priv" where
  "mcp2517fd_can_transform_rx_normal priv rx =
     (let (ok, dev) = alloc_skb (net priv)
      in if \<not> ok
         then (- ENOMEM, priv\<lparr>dev_log := dev_log priv @ [Err_cannot_allocate_rx_skb],
                               net := dev\<lparr>rx_dropped := rx_dropped dev + 1\<rparr>\<rparr>)
         else
           (let dlc = ucast (drop_bit CAN_OBJ_FLAGS_DLC_SHIFT
                               (rx_flags rx AND CAN_OBJ_FLAGS_DLC_MASK));
                len = unat (can_dlc2len dlc);
                frame = \<lparr>cf_can_id = mcp2517fd_mcpid_to_canid (rx_id rx) (rx_flags rx),
                         cf_can_dlc = dlc,
                         cf_data = (\<lambda>k. if k < len then rx_data rx k else 0)\<rparr>;
                dev = dev\<lparr>rx_packets := rx_packets dev + 1\<rparr>;
                dev = dev\<lparr>rx_bytes := rx_bytes dev + len\<rparr>
            in (0, priv\<lparr>net := netif_rx_ni (Skb_can frame) dev\<rparr>)))"

text \<open>\<^verbatim>\<open>mcp2517fd_can_ist_handle_rxfifo(spi, fifo)\<close>.\<close>

definition mcp2517fd_can_ist_handle_rxfifo :: "mcp2517fd_priv \<Rightarrow> nat \<Rightarrow> int \<times> mcp2517fd_priv" where
  "mcp2517fd_can_ist_handle_rxfifo priv fifo =
     (let rx = obj_rx_at (fifo_data priv) (unat (fifo_address priv fifo));
          priv = priv\<lparr>fifo_usage := (fifo_usage priv)(fifo := fifo_usage priv fifo + 1)\<rparr>;
          (ret, spi') = mcp2517fd_cmd_write_mask (spi priv) (CAN_FIFOCON (int fifo))
                          (CAN_FIFOCON_UINC OR CAN_FIFOCON_FRESET * 0)
                          (CAN_FIFOCON_UINC OR CAN_FIFOCON_FRESET * 0);
          priv = priv\<lparr>spi := spi'\<rparr>
      in if ret \<noteq> 0 then (ret, priv)
         else if rx_flags rx AND CAN_OBJ_FLAGS_FDF \<noteq> 0
         then mcp2517fd_can_transform_rx_fd priv rx
         else mcp2517fd_can_transform_rx_normal priv rx)"

text \<open>
  The loops of \<^verbatim>\<open>mcp2517fd_can_ist_handle_rxif\<close>. The indices \<open>i\<close> and \<open>j\<close> are
  \<^verbatim>\<open>int\<close> in C; they start at \<^verbatim>\<open>rx_fifo_start\<close> and only grow, so they are natural
  numbers here. \<open>rxif_run_end\<close> is the loop that finds the end \<open>j\<close> of the run of
  set bits that starts at \<open>i\<close>, clearing the bits on its way; \<open>lim\<close> is
  \<^verbatim>\<open>rx_fifo_start + rx_fifos\<close>.
\<close>

function rxif_run_end :: "nat \<Rightarrow> nat \<Rightarrow> u32 \<Rightarrow> nat \<times> u32" where
  "rxif_run_end j lim msk =
     (if j < lim \<and> msk AND BIT j \<noteq> 0
      then rxif_run_end (j + 1) lim (msk AND NOT (BIT j))
      else (j, msk))"
  by pat_completeness auto
termination
  by (relation "measure (\<lambda>(j, lim, msk). lim - j)") auto

declare rxif_run_end.simps [simp del]

text \<open>The loop \<^verbatim>\<open>for (; i < j; i++)\<close> that hands each fifo of the run to
  \<^verbatim>\<open>mcp2517fd_can_ist_handle_rxfifo\<close>, over the indices \<open>[i..<j]\<close>.\<close>

fun rxif_handle_run :: "nat list \<Rightarrow> mcp2517fd_priv \<Rightarrow> int \<times> mcp2517fd_priv" where
  "rxif_handle_run [] priv = (0, priv)"
| "rxif_handle_run (i # is) priv =
     (case mcp2517fd_can_ist_handle_rxfifo priv i of (ret, priv) \<Rightarrow>
        if ret \<noteq> 0 then (ret, priv) else rxif_handle_run is priv)"

text \<open>What the outer loop does at a fifo \<open>i\<close> whose bit is set: the end of the run, the
  mask, the return value so far and the state.\<close>

definition rxif_read_run ::
  "nat \<Rightarrow> nat \<Rightarrow> nat \<Rightarrow> u32 \<Rightarrow> mcp2517fd_priv \<Rightarrow> nat \<times> u32 \<times> int \<times> mcp2517fd_priv" where
  "rxif_read_run fifo_size i lim msk priv =
     (let (j, msk) = rxif_run_end i lim msk;
          off = unat (fifo_address priv i);
          n = (j - i) * fifo_size;
          ((ret, rx), spi') = mcp2517fd_cmd_readn (spi priv) (FIFO_DATA (fifo_address priv i)) n;
          priv = priv\<lparr>spi := spi'\<rparr>
      in if ret \<noteq> 0 then (j, msk, ret, priv)
         else
           (let priv = priv\<lparr>fifo_data :=
                         (\<lambda>k. if off \<le> k \<and> k < off + n then rx ! (k - off)
                              else fifo_data priv k)\<rparr>;
                (ret, priv) = rxif_handle_run [i..<j] priv
            in (j, msk, ret, priv)))"

text \<open>
  The outer loop \<^verbatim>\<open>for (i = rx_fifo_start; i < rx_fifo_start + rx_fifos; i++)\<close>. After
  a run the inner loop has left \<open>i = j\<close>, and the increment of the outer loop makes it
  \<open>j + 1\<close>.
\<close>

function rxif_scan :: "nat \<Rightarrow> nat \<Rightarrow> nat \<Rightarrow> u32 \<Rightarrow> mcp2517fd_priv \<Rightarrow> int \<times> mcp2517fd_priv" where
  "rxif_scan fifo_size i lim msk priv =
     (if i < lim then
        (if msk AND BIT i \<noteq> 0 then
           (case rxif_read_run fifo_size i lim msk priv of (j, msk, ret, priv) \<Rightarrow>
              if ret \<noteq> 0 then (ret, priv) else rxif_scan fifo_size (j + 1) lim msk priv)
         else rxif_scan fifo_size (i + 1) lim msk priv)
      else (0, priv))"
  by pat_completeness auto
termination
proof (relation "measure (\<lambda>(fifo_size, i, lim, msk, priv). lim - i)")
  have run_end_ge: "j \<le> fst (rxif_run_end j lim msk)" for j lim msk
  proof (induction j lim msk rule: rxif_run_end.induct)
    case (1 j lim msk)
    show ?case
    proof (cases "j < lim \<and> msk AND BIT j \<noteq> 0")
      case True
      with 1 have "j + 1 \<le> fst (rxif_run_end (j + 1) lim (msk AND NOT (BIT j)))"
        by blast
      with True show ?thesis
        by (subst rxif_run_end.simps) simp
    next
      case False
      then show ?thesis
        by (subst rxif_run_end.simps) auto
    qed
  qed
  have read_run_fst: "fst (rxif_read_run fifo_size i lim msk priv) = fst (rxif_run_end i lim msk)"
    for fifo_size i lim msk priv
    by (simp add: rxif_read_run_def Let_def split: prod.splits)
  show "wf (measure (\<lambda>(fifo_size, i, lim, msk, priv). lim - i))"
    by simp
  show "((fifo_size, j + 1, lim, msk', priv'), (fifo_size, i, lim, msk, priv))
          \<in> measure (\<lambda>(fifo_size, i, lim, msk, priv). lim - i)"
    if "i < lim" and "(j, x) = rxif_read_run fifo_size i lim msk priv"
    for fifo_size i lim msk priv j x msk' priv'
  proof -
    have "i \<le> j"
      using run_end_ge [of i lim msk] read_run_fst [of fifo_size i lim msk priv] that(2)
      by (metis fst_conv)
    with that(1) show ?thesis by simp
  qed
  show "((fifo_size, i + 1, lim, msk, priv), (fifo_size, i, lim, msk, priv))
          \<in> measure (\<lambda>(fifo_size, i, lim, msk, priv). lim - i)"
    if "i < lim" for fifo_size i lim msk priv
    using that by simp
qed

declare rxif_scan.simps [simp del]

text \<open>\<^verbatim>\<open>mcp2517fd_can_ist_handle_rxif(spi)\<close>.\<close>

definition rxif_fifo_size :: "mcp2517fd_priv \<Rightarrow> nat" where
  "rxif_fifo_size priv =
     sizeof_obj_rx + (if can_ctrlmode priv AND CAN_CTRLMODE_FD \<noteq> 0 then 64 else 8)"

definition mcp2517fd_can_ist_handle_rxif :: "mcp2517fd_priv \<Rightarrow> int \<times> mcp2517fd_priv" where
  "mcp2517fd_can_ist_handle_rxif priv =
     (let msk = st_rxif (status priv);
          fifo_size = rxif_fifo_size priv
      in if msk = 0 then (0, priv)
         else rxif_scan fifo_size (unat (rx_fifo_start priv))
                (unat (rx_fifo_start priv) + unat (rx_fifos priv)) msk priv)"

section \<open>Receive overflow\<close>

text \<open>
  \<^verbatim>\<open>mcp2517fd_error_skb(net, can_id, data1)\<close>. Modelled from the spec: the buffer comes
  from \<^verbatim>\<open>alloc_can_err_skb\<close> of the CAN core, not among the sources of the driver; it
  is the synthetic error notification of the spec, a classic frame of 8 zeroed bytes in
  which the driver sets the identifier and the second byte.
\<close>

definition mcp2517fd_error_skb :: "mcp2517fd_priv \<Rightarrow> u32 \<Rightarrow> u8 \<Rightarrow> mcp2517fd_priv" where
  "mcp2517fd_error_skb priv can_id data1 =
     (let (ok, dev) = alloc_skb (net priv)
      in if ok
         then priv\<lparr>net := netif_rx_ni
                             (Skb_can \<lparr>cf_can_id = can_id, cf_can_dlc = 8,
                                       cf_data = (\<lambda>k. if k = 1 then data1 else 0)\<rparr>) dev\<rparr>
         else priv\<lparr>net := dev, dev_log := dev_log priv @ [Err_cannot_allocate_error_skb]\<rparr>)"

text \<open>The loop \<^verbatim>\<open>for (i = 0; i < 32; i++)\<close> of \<^verbatim>\<open>mcp2517fd_can_ist_handle_rxovif\<close>, over
  the indices left; \<^verbatim>\<open>canid\<close> and \<^verbatim>\<open>data1\<close> are \<^verbatim>\<open>int\<close> in C and only ever hold the two
  constants.\<close>

fun rxovif_loop ::
  "nat list \<Rightarrow> u32 \<Rightarrow> u32 \<Rightarrow> u8 \<Rightarrow> mcp2517fd_priv \<Rightarrow> int \<times> u32 \<times> u8 \<times> mcp2517fd_priv" where
  "rxovif_loop [] msk canid data1 priv = (0, canid, data1, priv)"
| "rxovif_loop (i # is) msk canid data1 priv =
     (if msk AND BIT i \<noteq> 0 then
        (case mcp2517fd_cmd_write_mask (spi priv) (CAN_FIFOSTA (int i)) 0 CAN_FIFOSTA_RXOVIF
         of (ret, spi') \<Rightarrow>
           if ret \<noteq> 0 then (ret, canid, data1, priv\<lparr>spi := spi'\<rparr>)
           else rxovif_loop is msk (canid OR CAN_ERR_CRTL) (data1 OR CAN_ERR_CRTL_RX_OVERFLOW)
                  (priv\<lparr>spi := spi',
                        net := (net priv)\<lparr>rx_over_errors := rx_over_errors (net priv) + 1,
                                          rx_errors := rx_errors (net priv) + 1\<rparr>,
                        rx_overflow := rx_overflow priv + 1\<rparr>))
      else rxovif_loop is msk canid data1 priv)"

text \<open>\<^verbatim>\<open>mcp2517fd_can_ist_handle_rxovif(spi)\<close>.\<close>

definition mcp2517fd_can_ist_handle_rxovif :: "mcp2517fd_priv \<Rightarrow> int \<times> mcp2517fd_priv" where
  "mcp2517fd_can_ist_handle_rxovif priv =
     (let msk = st_rxovif (status priv);
          (ret, canid, data1, priv) = rxovif_loop [0..<32] msk 0 0 priv
      in if ret \<noteq> 0 then (ret, priv)
         else (0, if canid \<noteq> 0 then mcp2517fd_error_skb priv canid data1 else priv))"

section \<open>Interrupt dispatcher\<close>

text \<open>\<^verbatim>\<open>mcp2517fd_can_ist_handle_status(spi)\<close>.\<close>

definition mcp2517fd_can_ist_handle_status ::
  "mcp2517fd_obj_tef \<Rightarrow> mcp2517fd_priv \<Rightarrow> int \<times> mcp2517fd_priv" where
  "mcp2517fd_can_ist_handle_status tef0 priv =
     (let (ret, priv) = (if st_intf (status priv) AND CAN_INT_RXIF \<noteq> 0
                         then mcp2517fd_can_ist_handle_rxif priv else (0, priv))
      in if ret \<noteq> 0 then (ret, priv)
         else
           (let (ret, priv) = (if st_intf (status priv) AND CAN_INT_TEFIF \<noteq> 0
                               then mcp2517fd_can_ist_handle_tefif tef0 priv else (0, priv))
            in if ret \<noteq> 0 then (ret, priv)
               else
                 (let (ret, priv) = (if st_rxovif (status priv) \<noteq> 0
                                     then mcp2517fd_can_ist_handle_rxovif priv else (0, priv))
                  in if ret \<noteq> 0 then (ret, priv) else (0, priv))))"

text \<open>The status block from the bytes of one read of \<^verbatim>\<open>sizeof(priv->status)\<close> bytes at
  \<^verbatim>\<open>CAN_INT\<close> (little-endian host).\<close>

definition status_of_bytes :: "u8 list \<Rightarrow> mcp_status" where
  "status_of_bytes bs =
     \<lparr>st_intf = le32_of_bytes (take 4 bs),
      st_rxif = le32_of_bytes (take 4 (drop 4 bs)),
      st_txif = le32_of_bytes (take 4 (drop 8 bs)),
      st_rxovif = le32_of_bytes (take 4 (drop 12 bs)),
      st_txatif = le32_of_bytes (take 4 (drop 16 bs)),
      st_txreq = le32_of_bytes (take 4 (drop 20 bs)),
      st_trec = le32_of_bytes (take 4 (drop 24 bs)),
      st_bdiag0 = le32_of_bytes (take 4 (drop 28 bs)),
      st_bdiag1 = le32_of_bytes (take 4 (drop 32 bs))\<rparr>"

text \<open>
  One round of the loop of \<^verbatim>\<open>mcp2517fd_can_ist\<close>, from the test of \<^verbatim>\<open>force_quit\<close> at
  its head: \<open>Inl\<close> when the function returns in this round, with the value returned,
  \<open>Inr\<close> when the loop goes round again.
\<close>

definition can_ist_round ::
  "mcp2517fd_obj_tef \<Rightarrow> mcp2517fd_priv \<Rightarrow> (int \<times> mcp2517fd_priv) + mcp2517fd_priv" where
  "can_ist_round tef0 priv =
     (if force_quit priv \<noteq> 0 then Inl (IRQ_HANDLED, priv)
      else
        (let ((ret, rx), spi') = mcp2517fd_cmd_readn (spi priv) CAN_INT sizeof_status;
             priv = priv\<lparr>spi := spi'\<rparr>
         in if ret \<noteq> 0 then Inl (ret, priv)
            else
              (let priv = priv\<lparr>status := status_of_bytes rx\<rparr>
               in if st_intf (status priv)
                       AND drop_bit CAN_INT_IE_SHIFT (st_intf (status priv)) = 0
                  then Inl (IRQ_HANDLED, priv)
                  else
                    (let (ret, priv) = mcp2517fd_can_ist_handle_status tef0 priv
                     in if ret \<noteq> 0 then Inl (ret, priv) else Inr priv))))"

text \<open>
  The statement \<^verbatim>\<open>priv->force_quit = 1\<close> of \<^verbatim>\<open>mcp2517fd_stop\<close> and of
  \<^verbatim>\<open>mcp2517fd_suspend\<close>. These functions run on another thread than the interrupt
  thread, and may run while that thread is in its loop.
\<close>

definition set_force_quit :: "mcp2517fd_priv \<Rightarrow> mcp2517fd_priv" where
  "set_force_quit priv = priv\<lparr>force_quit := 1\<rparr>"

text \<open>
  \<^verbatim>\<open>mcp2517fd_can_ist(irq, dev_id)\<close>. The loop reads \<^verbatim>\<open>priv->force_quit\<close> afresh at the
  head of each round and nowhere else, and nothing in the loop writes it: the field
  changes only by the write of the other thread. The rounds are counted from the entry
  of the function, round 0; \<open>stop k\<close> tells whether the other thread has made its write
  since the head of the round before and by the time the loop tests the flag at the head
  of round \<open>k\<close> (\<open>\<lambda>k. False\<close> when no other thread writes). The loop may go on for ever,
  as long as the device keeps a flag raised and nobody sets \<^verbatim>\<open>force_quit\<close>; \<open>None\<close>
  stands for that.
\<close>

partial_function (option) mcp2517fd_can_ist ::
  "mcp2517fd_obj_tef \<Rightarrow> (nat \<Rightarrow> bool) \<Rightarrow> nat \<Rightarrow> mcp2517fd_priv
     \<Rightarrow> (int \<times> mcp2517fd_priv) option" where
  "mcp2517fd_can_ist tef0 stop k priv =
     (case can_ist_round tef0 (if stop k then set_force_quit priv else priv) of
        Inl r \<Rightarrow> Some r
      | Inr priv \<Rightarrow> mcp2517fd_can_ist tef0 stop (k + 1) priv)"

declare mcp2517fd_can_ist.simps [code]

section \<open>A configured device, for concrete runs\<close>

text \<open>
  A bus on which every transfer succeeds and reads zeros, a network device with fresh
  counters on which every allocation succeeds, and the state that
  \<^verbatim>\<open>mcp2517fd_setup_fifo\<close> leaves for classic frames: seven transmit fifos from fifo 1,
  24 receive fifos from fifo 8, the completion ring at the start of the device memory,
  followed by the transmit and the receive fifos.
\<close>

definition example_spi :: spi_device where
  "example_spi = \<lparr>spi_reply = (\<lambda>n x. (0, (\<lambda>k. 0))), spi_xfers = []\<rparr>"

definition example_net :: net_device where
  "example_net =
     \<lparr>rx_packets = 0, rx_bytes = 0, rx_dropped = 0, rx_errors = 0, rx_over_errors = 0,
      tx_packets = 0, tx_bytes = 0, tx_errors = 0, tx_dropped = 0,
      queue_stopped = False, echo_skb = Map.empty, netif_rx = [],
      skb_alloc_ok = (\<lambda>n. True), skb_allocs = 0\<rparr>"

definition example_status :: mcp_status where
  "example_status =
     \<lparr>st_intf = 0, st_rxif = 0, st_txif = 0, st_rxovif = 0, st_txatif = 0, st_txreq = 0,
      st_trec = 0, st_bdiag0 = 0, st_bdiag1 = 0\<rparr>"

definition example_priv :: mcp2517fd_priv where
  "example_priv =
     \<lparr>can_ctrlmode = 0, net = example_net, spi = example_spi,
      tx_work_skb = None, tx_work_queued = False,
      payload_size = 8, payload_mode = CAN_TXQCON_PLSIZE_8,
      tef_address_start = 0, tef_address_end = 95, tef_address = 0,
      fifo_address = (\<lambda>i. if i < 8 then of_nat (84 + 16 * (i - 1))
                             else of_nat (196 + 20 * (i - 8))),
      tx_fifos = 7, tx_fifo_start = 1, tx_fifo_mask = 0xFE, tx_pending_mask = 0,
      rx_fifos = 24, rx_fifo_depth = 1, rx_fifo_start = 8, rx_fifo_mask = 0xFFFFFF00,
      rx_overflow = 0, status = example_status, force_quit = 0,
      fifo_data = (\<lambda>k. 0), fifo_usage = (\<lambda>i. 0), dev_log = []\<rparr>"

definition example_frame :: can_frame where
  "example_frame = \<lparr>cf_can_id = 0x123, cf_can_dlc = 15, cf_data = (\<lambda>k. of_nat k)\<rparr>"

definition example_fdframe :: canfd_frame where
  "example_fdframe = \<lparr>fd_can_id = 0x123, fd_len = 9, fd_flags = 0, fd_data = (\<lambda>k. of_nat k)\<rparr>"

text \<open>
  A device behind the bus that answers every read with the bytes of a register memory,
  starting at the address of the command, and accepts every write.
\<close>

definition cmd_addr_of :: "u8 list \<Rightarrow> nat" where
  "cmd_addr_of tx =
     unat ((push_bit 8 (ucast (tx ! 0)) OR ucast (tx ! 1) :: u16) AND ADDRESS_MASK)"

definition register_spi :: "(nat \<Rightarrow> u8) \<Rightarrow> spi_device" where
  "register_spi mem =
     \<lparr>spi_reply = (\<lambda>n x. case x of
                       Spi_write tx \<Rightarrow> (0, (\<lambda>k. 0))
                     | Spi_write_then_read tx len \<Rightarrow> (0, (\<lambda>k. mem (cmd_addr_of tx + k)))),
      spi_xfers = []\<rparr>"

text \<open>
  The submission of one frame as the network stack and the work queue perform it:
  \<^verbatim>\<open>mcp2517fd_start_xmit\<close>, then, when it has queued the work, the run of
  \<^verbatim>\<open>mcp2517fd_tx_work_handler\<close>. The frame is valid (\<^verbatim>\<open>can_dropped_invalid_skb\<close>
  lets it pass). The result carries the fifo that the handler computed, if it ran.
\<close>

definition submit_frame ::
  "(nat \<Rightarrow> u8) \<Rightarrow> sk_buff \<Rightarrow> mcp2517fd_priv \<Rightarrow> (int option \<times> mcp2517fd_priv) option" where
  "submit_frame d0 skb priv =
     (let (ret, priv) = mcp2517fd_start_xmit (\<lambda>dev skb. (False, dev)) skb priv
      in if tx_work_queued priv
         then (let priv = priv\<lparr>tx_work_queued := False\<rparr>
               in case mcp2517fd_tx_work_handler d0 priv of
                    None \<Rightarrow> None
                  | Some priv' \<Rightarrow> Some (Some (tx_work_fifo priv), priv'))
         else Some (None, priv))"

fun submit_frames ::
  "(nat \<Rightarrow> u8) \<Rightarrow> sk_buff list \<Rightarrow> mcp2517fd_priv \<Rightarrow> (int option list \<times> mcp2517fd_priv) option" where
  "submit_frames d0 [] priv = Some ([], priv)"
| "submit_frames d0 (skb # skbs) priv =
     (case submit_frame d0 skb priv of
        None \<Rightarrow> None
      | Some (f, priv) \<Rightarrow>
          (case submit_frames d0 skbs priv of
             None \<Rightarrow> None
           | Some (fs, priv) \<Rightarrow> Some (f # fs, priv)))"

text \<open>In the words of the spec: the lowest fifo of the transmit pool that is not
  pending (``the lowest freed ring'').\<close>

definition lowest_freed_fifo :: "mcp2517fd_priv \<Rightarrow> nat option" where
  "lowest_freed_fifo priv =
     find (\<lambda>i. \<not> bit (tx_pending_mask priv) i)
       [unat (tx_fifo_start priv)..<unat (tx_fifo_start priv) + unat (tx_fifos priv)]"


text \<open>The read transactions among the transfers of a bus.\<close>

fun is_read :: "spi_xfer \<Rightarrow> bool" where
  "is_read (Spi_write tx) = False"
| "is_read (Spi_write_then_read tx n) = True"

text \<open>A register memory in which the register at address 0 holds \<open>0x11223344\<close>.\<close>

definition example_regs :: "nat \<Rightarrow> u8" where
  "example_regs a = (if a = 0 then 0x44 else if a = 1 then 0x33 else if a = 2 then 0x22
                     else if a = 3 then 0x11 else 0)"

text \<open>The state after \<open>k\<close> submissions without a completion: no frame waits for the
  work handler and the \<open>k\<close> highest fifos of the pool are pending.\<close>

definition top_pending :: "nat \<Rightarrow> mcp2517fd_priv \<Rightarrow> bool" where
  "top_pending k priv \<longleftrightarrow>
     tx_work_skb priv = None \<and>
     (\<forall>n. bit (tx_pending_mask priv) n \<longleftrightarrow>
            unat (tx_fifo_start priv) + unat (tx_fifos priv) - k \<le> n \<and>
            n < unat (tx_fifo_start priv) + unat (tx_fifos priv))"

text \<open>
  Pieces of concrete runs: a stack that holds zeros, a \<^verbatim>\<open>can_dropped_invalid_skb\<close> that
  lets every frame pass, a device memory whose completion object carries the sequence
  tag 7, and a completion structure that holds zeros before the first read.
\<close>

definition zero_bytes :: "nat \<Rightarrow> u8" where "zero_bytes k = 0"

definition pass_valid_skb :: "net_device \<Rightarrow> sk_buff \<Rightarrow> bool \<times> net_device" where
  "pass_valid_skb dev skb = (False, dev)"

definition example_tef_regs :: "nat \<Rightarrow> u8" where
  "example_tef_regs a = (if a = 0x405 then 0x0E else 0)"

definition example_tef0 :: mcp2517fd_obj_tef where
  "example_tef0 = \<lparr>tef_id = 0, tef_flags = 0, tef_ts = 0\<rparr>"

text \<open>
  Seven frames are submitted to the configured device, which makes all seven transmit
  fifos pending; then the completion of fifo 7, the first one submitted, is retired while
  the fifos 1 to 6 still show their send request. \<open>next_submission\<close> is the submission
  of one more frame after that.
\<close>

definition all_pending_then_fifo7_done :: "mcp2517fd_priv option" where
  "all_pending_then_fifo7_done =
     (case submit_frames zero_bytes (replicate 7 (Skb_can example_frame))
             (example_priv\<lparr>spi := register_spi example_tef_regs\<rparr>) of
        None \<Rightarrow> None
      | Some (fs, priv) \<Rightarrow>
          Some (snd (mcp2517fd_can_ist_handle_tefif example_tef0
                       (priv\<lparr>status := (status priv)\<lparr>st_txreq := 0x7E\<rparr>\<rparr>))))"

definition next_submission :: "(int option \<times> mcp2517fd_priv) option" where
  "next_submission =
     (case all_pending_then_fifo7_done of
        None \<Rightarrow> None
      | Some priv \<Rightarrow> submit_frame zero_bytes (Skb_can example_frame) priv)"

text \<open>A frame has been accepted by \<^verbatim>\<open>mcp2517fd_start_xmit\<close> while the fifos 1 to 6 are
  pending; and a state in which the fifos 5 to 7 are pending.\<close>

definition defect_state :: mcp2517fd_priv where
  "defect_state =
     example_priv\<lparr>tx_pending_mask := 0x7E, tx_work_skb := Some (Skb_can example_frame),
                  net := netif_stop_queue example_net\<rparr>"

definition three_pending :: mcp2517fd_priv where
  "three_pending = example_priv\<lparr>tx_pending_mask := 0xE0\<rparr>"

text \<open>The transfer that clears the overflow flag of fifo \<open>i\<close> (one byte at
  \<^verbatim>\<open>CAN_FIFOSTA(i)\<close>), and the error frame that reports overflows.\<close>

definition rxovif_clear_xfer :: "nat \<Rightarrow> spi_xfer" where
  "rxovif_clear_xfer i =
     Spi_write (mcp2517fd_calc_cmd_addr INSTRUCTION_WRITE (ucast (CAN_FIFOSTA (int i))) @ [0])"



text \<open>The read of the status block at the head of a round of \<^verbatim>\<open>mcp2517fd_can_ist\<close>:
  its result and the state after it.\<close>

definition status_read :: "mcp2517fd_priv \<Rightarrow> int \<times> mcp2517fd_priv" where
  "status_read priv =
     (case mcp2517fd_cmd_readn (spi priv) CAN_INT sizeof_status of
        ((ret, rx), spi') \<Rightarrow>
          (ret, if ret \<noteq> 0 then priv\<lparr>spi := spi'\<rparr>
                else priv\<lparr>spi := spi', status := status_of_bytes rx\<rparr>))"

text \<open>The transfer of that read: \<^verbatim>\<open>sizeof(priv->status)\<close> bytes from \<^verbatim>\<open>CAN_INT\<close>.\<close>

definition status_read_xfer :: spi_xfer where
  "status_read_xfer =
     Spi_write_then_read (mcp2517fd_calc_cmd_addr INSTRUCTION_READ (ucast CAN_INT)) sizeof_status"

text \<open>
  The first \<open>n\<close> rounds of the loop of \<^verbatim>\<open>mcp2517fd_can_ist\<close> while no other thread writes
  \<^verbatim>\<open>force_quit\<close>: \<open>Inl\<close> with the value returned when the function returns within
  these rounds, \<open>Inr\<close> with the state at the head of the next round otherwise.
\<close>

fun can_ist_rounds ::
  "mcp2517fd_obj_tef \<Rightarrow> nat \<Rightarrow> mcp2517fd_priv \<Rightarrow> (int \<times> mcp2517fd_priv) + mcp2517fd_priv" where
  "can_ist_rounds tef0 0 priv = Inr priv"
| "can_ist_rounds tef0 (Suc n) priv =
     (case can_ist_round tef0 priv of
        Inl r \<Rightarrow> Inl r
      | Inr priv \<Rightarrow> can_ist_rounds tef0 n priv)"

text \<open>
  A register memory with work of all three kinds: in the interrupt register the receive
  flag and the completion flag are raised (bits 1 and 4) and enabled (bits 17 and 20),
  the receive fifos 8, 9 and 11 are ready, fifo 8 has overflowed, no send request is
  outstanding, and the first object of the completion ring carries the sequence tag 7.
\<close>

definition work_regs :: "nat \<Rightarrow> u8" where
  "work_regs a = (if a = 0x01C \<or> a = 0x01E then 0x12 else if a = 0x021 then 0x0B
                  else if a = 0x029 then 0x01 else if a = 0x405 then 0x0E else 0)"

text \<open>The configured device with fifo 7 pending, its frame held for the echo, as after
  one submission.\<close>

definition one_pending :: mcp2517fd_priv where
  "one_pending =
     example_priv\<lparr>tx_pending_mask := 0x80,
                  net := example_net\<lparr>echo_skb := [7 \<mapsto> Skb_can example_frame]\<rparr>\<rparr>"

text \<open>
  Devices for runs of the interrupt thread. \<open>work_once\<close>: the controller answers the
  first transfer, which is the first status read, from \<open>work_regs\<close>, and shows no flag
  and no overflow from then on, as when the servicing has cleared them.
  \<open>work_for_ever\<close>: the controller keeps the registers of \<open>work_regs\<close> whatever is
  done. \<open>quit_requested\<close>: the same, \<^verbatim>\<open>force_quit\<close> being set already when the function
  is entered. \<open>bus_failing\<close>: every transfer fails. \<open>stop_at_2\<close>: the other thread
  sets \<^verbatim>\<open>force_quit\<close> while the loop is in its second round, so that the flag is found
  set at the head of round 2, the third; \<open>no_stop\<close>: it never does.
\<close>

definition work_once_spi :: spi_device where
  "work_once_spi =
     \<lparr>spi_reply = (\<lambda>n x. case x of
                       Spi_write tx \<Rightarrow> (0, (\<lambda>k. 0))
                     | Spi_write_then_read tx len \<Rightarrow>
                         (0, (\<lambda>k. if n = 0 then work_regs (cmd_addr_of tx + k)
                                   else example_tef_regs (cmd_addr_of tx + k)))),
      spi_xfers = []\<rparr>"

definition work_once :: mcp2517fd_priv where
  "work_once = one_pending\<lparr>spi := work_once_spi\<rparr>"

definition work_for_ever :: mcp2517fd_priv where
  "work_for_ever = one_pending\<lparr>spi := register_spi work_regs\<rparr>"

definition quit_requested :: mcp2517fd_priv where
  "quit_requested = work_for_ever\<lparr>force_quit := 1\<rparr>"

definition failing_spi :: spi_device where
  "failing_spi = \<lparr>spi_reply = (\<lambda>n x. (- 5, (\<lambda>k. 0))), spi_xfers = []\<rparr>"

definition bus_failing :: mcp2517fd_priv where
  "bus_failing = example_priv\<lparr>spi := failing_spi\<rparr>"

definition stop_at_2 :: "nat \<Rightarrow> bool" where
  "stop_at_2 k \<longleftrightarrow> k = 2"

definition no_stop :: "nat \<Rightarrow> bool" where
  "no_stop k \<longleftrightarrow> False"

text \<open>
  A device memory whose completion ring of seven slots, at the start of the memory,
  holds the sequence tags 7 down to 1. Seven frames are submitted to the configured
  device; then all seven completions are retired in one pass (no send request is
  outstanding any more).
\<close>

definition example_tef_ring :: "nat \<Rightarrow> u8" where
  "example_tef_ring a =
     (if 0x400 \<le> a \<and> a < 0x400 + 7 * 12 \<and> (a - 0x400) mod 12 = 5
      then of_nat (2 * (7 - (a - 0x400) div 12)) else 0)"

definition seven_completions_retired :: "mcp2517fd_priv option" where
  "seven_completions_retired =
     (case submit_frames zero_bytes (replicate 7 (Skb_can example_frame))
             (setup_fifo_tef_address 0 (example_priv\<lparr>spi := register_spi example_tef_ring\<rparr>)) of
        None \<Rightarrow> None
      | Some (fs, priv) \<Rightarrow>
          Some (snd (mcp2517fd_can_ist_handle_tefif example_tef0
                       (priv\<lparr>status := (status priv)\<lparr>st_txreq := 0\<rparr>\<rparr>))))"

text \<open>The transfer of the masked write that sets \<^verbatim>\<open>UINC\<close> in the control register of a
  receive fifo: one byte, the second of \<^verbatim>\<open>CAN_FIFOCON(fifo)\<close>.\<close>

definition rx_uinc_xfer :: "nat \<Rightarrow> spi_xfer" where
  "rx_uinc_xfer fifo =
     Spi_write (mcp2517fd_calc_cmd_addr INSTRUCTION_WRITE (ucast (CAN_FIFOCON (int fifo) + 1))
                @ [1])"

text \<open>The read of a run of receive fifos, \<open>run\<close> being the first fifo of the run and the
  number of its fifos: it starts at the address of the first fifo in the device memory and
  covers the slots of all of them.\<close>

definition rx_read_xfer :: "mcp2517fd_priv \<Rightarrow> nat \<times> nat \<Rightarrow> spi_xfer" where
  "rx_read_xfer priv run =
     Spi_write_then_read
       (mcp2517fd_calc_cmd_addr INSTRUCTION_READ (ucast (FIFO_DATA (fifo_address priv (fst run)))))
       (snd run * rxif_fifo_size priv)"


section \<open>Bytes, bits and transfers\<close>

lemma bit_le32_of_bytes4:
  "bit (le32_of_bytes [b0, b1, b2, b3]) n \<longleftrightarrow>
     (n < 8 \<and> bit b0 n) \<or> (8 \<le> n \<and> n < 16 \<and> bit b1 (n - 8))
     \<or> (16 \<le> n \<and> n < 24 \<and> bit b2 (n - 16)) \<or> (24 \<le> n \<and> n < 32 \<and> bit b3 (n - 24))"
  by (auto simp add: le32_of_bytes_def bit_simps dest: bit_imp_le_length)

lemma le32_bytes_eq:
  "le32_bytes w = [ucast w, ucast (drop_bit 8 w), ucast (drop_bit 16 w), ucast (drop_bit 24 w)]"
  by (simp add: le32_bytes_def upt_rec)

lemma le32_of_bytes_le32_bytes: "le32_of_bytes (le32_bytes w) = w"
  unfolding le32_bytes_eq
proof (rule bit_word_eqI)
  fix n :: nat
  assume "n < LENGTH(32)"
  consider "n < 8" | "8 \<le> n" "n < 16" | "16 \<le> n" "n < 24" | "24 \<le> n"
    by linarith
  then show "bit (le32_of_bytes [ucast w, ucast (drop_bit 8 w), ucast (drop_bit 16 w),
                                 ucast (drop_bit 24 w)]) n = bit w n"
    using \<open>n < LENGTH(32)\<close>
    by cases (auto simp add: bit_le32_of_bytes4 bit_simps)
qed

lemma length_le32_bytes: "length (le32_bytes w) = 4"
  by (simp add: le32_bytes_def)

lemma length_calc_cmd_addr: "length (mcp2517fd_calc_cmd_addr c a) = 2"
  by (simp add: mcp2517fd_calc_cmd_addr_def Let_def)

lemma bit_pow2: "(w::u32) = push_bit k 1 \<Longrightarrow> bit w n \<longleftrightarrow> n = k \<and> k < 32"
  by (simp only: bit_push_bit_iff bit_1_iff possible_bit_word) auto

lemma bit_BIT: "bit (BIT k) n \<longleftrightarrow> n = k \<and> k < 32"
  by (rule bit_pow2) (simp add: BIT_def)

lemma bit_GENMASK: "bit (GENMASK h l) n \<longleftrightarrow> l \<le> n \<and> n \<le> h \<and> n < 32"
  by (auto simp add: GENMASK_def bit_simps)

lemma txreq_uinc_nonzero: "CAN_FIFOCON_TXREQ OR CAN_FIFOCON_UINC \<noteq> 0"
  by (simp add: CAN_FIFOCON_TXREQ_def CAN_FIFOCON_UINC_def BIT_def)


lemma mcp2517fd_write_eq:
  "mcp2517fd_write bus bs =
     (fst (spi_reply bus (length (spi_xfers bus)) (Spi_write bs)),
      bus\<lparr>spi_xfers := spi_xfers bus @ [Spi_write bs]\<rparr>)"
  by (simp add: mcp2517fd_write_def mcp2517fd_sync_transfer_def case_prod_beta)

lemma mcp2517fd_write_then_write_eq:
  "mcp2517fd_write_then_write bus bs bs2 =
     (fst (spi_reply bus (length (spi_xfers bus)) (Spi_write (bs @ bs2))),
      bus\<lparr>spi_xfers := spi_xfers bus @ [Spi_write (bs @ bs2)]\<rparr>)"
  by (simp add: mcp2517fd_write_then_write_def mcp2517fd_sync_transfer_def case_prod_beta)

lemma mcp2517fd_cmd_readn_eq:
  "mcp2517fd_cmd_readn bus reg n =
     (let x = Spi_write_then_read (mcp2517fd_calc_cmd_addr INSTRUCTION_READ (ucast reg)) n;
          r = spi_reply bus (length (spi_xfers bus)) x
      in ((fst r, map (snd r) [0..<n]), bus\<lparr>spi_xfers := spi_xfers bus @ [x]\<rparr>))"
  by (simp add: mcp2517fd_cmd_readn_def mcp2517fd_write_then_read_def mcp2517fd_sync_transfer_def
      case_prod_beta Let_def)

lemma transmit_message_common_xfers:
  "\<exists>rest. spi_xfers (spi (snd (mcp2517fd_transmit_message_common d0 priv fifo (obj_id, obj_flags) len payload)))
     = spi_xfers (spi priv)
       @ Spi_write (mcp2517fd_calc_cmd_addr INSTRUCTION_WRITE (ucast (FIFO_DATA (fifo_address priv (nat fifo))))
                    @ le32_bytes obj_id
                    @ le32_bytes (obj_flags OR push_bit CAN_OBJ_FLAGS_SEQ_SHIFT (word_of_int fifo))
                    @ map payload [0..<len]
                    @ map d0 [2 + sizeof_obj_tx + len..<2 + sizeof_obj_tx + ALIGN4 len]) # rest"
  by (simp add: mcp2517fd_transmit_message_common_def mcp2517fd_write_eq
      mcp2517fd_cmd_write_mask_def mcp2517fd_write_then_write_eq txreq_uinc_nonzero Let_def
      case_prod_beta)

section \<open>The frame codec\<close>

lemma bit_can_flags:
  "bit CAN_EFF_FLAG n \<longleftrightarrow> n = 31" "bit CAN_RTR_FLAG n \<longleftrightarrow> n = 30"
  "bit CAN_OBJ_FLAGS_IDE n \<longleftrightarrow> n = 4" "bit CAN_OBJ_FLAGS_RTR n \<longleftrightarrow> n = 5"
  using bit_pow2 [of CAN_EFF_FLAG 31 n] bit_pow2 [of CAN_RTR_FLAG 30 n]
    bit_pow2 [of CAN_OBJ_FLAGS_IDE 4 n] bit_pow2 [of CAN_OBJ_FLAGS_RTR 5 n]
  by (simp_all add: CAN_EFF_FLAG_def CAN_RTR_FLAG_def CAN_OBJ_FLAGS_IDE_def CAN_OBJ_FLAGS_RTR_def
      BIT_def)

lemma bit_less_exp: "(w :: u32) < 2 ^ k \<Longrightarrow> bit w n \<Longrightarrow> n < k"
proof -
  assume a: "w < 2 ^ k" and b: "bit w n"
  from a have "w AND mask k = w" by (rule less_mask_eq)
  then have "bit (w AND mask k) n" using b by simp
  then show "n < k" by (simp add: bit_simps)
qed

lemma can_id_shifts:
  "CAN_EFF_SID_SHIFT = 18" "CAN_EFF_EID_SHIFT = 0" "CAN_OBJ_ID_EID_SHIFT = 11"
  "CAN_OBJ_ID_SID_SHIFT = 0"
  by (simp_all add: CAN_EFF_SID_SHIFT_def CAN_EFF_EID_SHIFT_def CAN_OBJ_ID_EID_SHIFT_def
      CAN_OBJ_ID_SID_SHIFT_def CAN_EFF_ID_BITS_def CAN_SFF_ID_BITS_def)

lemma can_id_masks:
  "CAN_EFF_SID_MASK = push_bit 18 (mask 11)" "CAN_EFF_EID_MASK = mask 18"
  "CAN_OBJ_ID_SID_MASK = mask 11" "CAN_OBJ_ID_EID_MASK = push_bit 11 (mask 18)"
  "CAN_SFF_MASK = mask 11"
  by (simp_all add: CAN_EFF_SID_MASK_def CAN_EFF_EID_MASK_def CAN_OBJ_ID_SID_MASK_def
      CAN_OBJ_ID_EID_MASK_def CAN_SFF_MASK_def GENMASK_def can_id_shifts
      CAN_EFF_SID_BITS_def CAN_EFF_EID_BITS_def CAN_OBJ_ID_SID_BITS_def CAN_OBJ_ID_EID_BITS_def
      CAN_SFF_ID_BITS_def mask_eq_exp_minus_1)

lemma round_trip_standard:
  assumes "cid < 2 ^ 11"
  shows "mcp2517fd_canid_to_mcpid cid = (cid, 0)"
    and "mcp2517fd_mcpid_to_canid cid 0 = cid"
    and "cid AND CAN_EFF_FLAG = 0"
proof -
  have nb: "n < 11" if "bit cid n" for n
    using assms that by (rule bit_less_exp)
  show e: "cid AND CAN_EFF_FLAG = 0"
    by (rule bit_word_eqI) (auto simp add: bit_simps bit_can_flags dest: nb)
  have r: "cid AND CAN_RTR_FLAG = 0"
    by (rule bit_word_eqI) (auto simp add: bit_simps bit_can_flags dest: nb)
  have m: "cid AND CAN_SFF_MASK = cid" "cid AND CAN_OBJ_ID_SID_MASK = cid"
    by (rule bit_word_eqI, auto simp add: bit_simps can_id_masks dest: nb)+
  show "mcp2517fd_canid_to_mcpid cid = (cid, 0)"
    by (simp add: mcp2517fd_canid_to_mcpid_def e r m)
  show "mcp2517fd_mcpid_to_canid cid 0 = cid"
    by (simp add: mcp2517fd_mcpid_to_canid_def m can_id_shifts)
qed

lemma canid_to_mcpid_extended:
  assumes "c AND CAN_EFF_FLAG \<noteq> 0" "c AND CAN_RTR_FLAG = 0"
  shows "snd (mcp2517fd_canid_to_mcpid c) = CAN_OBJ_FLAGS_IDE"
    and "bit (fst (mcp2517fd_canid_to_mcpid c)) n \<longleftrightarrow>
           (n < 11 \<and> bit c (18 + n)) \<or> (11 \<le> n \<and> n < 29 \<and> bit c (n - 11))"
  using assms
  by (auto simp add: mcp2517fd_canid_to_mcpid_def can_id_shifts can_id_masks bit_simps)

lemma mcpid_to_canid_extended:
  assumes "f AND CAN_OBJ_FLAGS_IDE \<noteq> 0" "f AND CAN_OBJ_FLAGS_RTR = 0"
  shows "bit (mcp2517fd_mcpid_to_canid m f) n \<longleftrightarrow>
     n = 31 \<or> (n < 18 \<and> bit m (11 + n)) \<or> (18 \<le> n \<and> n < 29 \<and> bit m (n - 18))"
  using assms
  by (auto simp add: mcp2517fd_mcpid_to_canid_def can_id_shifts can_id_masks bit_simps
      bit_can_flags)

lemma round_trip_extended:
  assumes "cid < 2 ^ 29"
  shows "snd (mcp2517fd_canid_to_mcpid (cid OR CAN_EFF_FLAG)) = CAN_OBJ_FLAGS_IDE"
    and "mcp2517fd_mcpid_to_canid (fst (mcp2517fd_canid_to_mcpid (cid OR CAN_EFF_FLAG)))
           CAN_OBJ_FLAGS_IDE = cid OR CAN_EFF_FLAG"
proof -
  have nb: "n < 29" if "bit cid n" for n
    using assms that by (rule bit_less_exp)
  have "bit ((cid OR CAN_EFF_FLAG) AND CAN_EFF_FLAG) 31"
    by (simp add: bit_simps bit_can_flags)
  then have e: "(cid OR CAN_EFF_FLAG) AND CAN_EFF_FLAG \<noteq> 0"
    by auto
  have r: "(cid OR CAN_EFF_FLAG) AND CAN_RTR_FLAG = 0"
    by (rule bit_word_eqI) (auto simp add: bit_simps bit_can_flags dest: nb)
  have i: "CAN_OBJ_FLAGS_IDE AND CAN_OBJ_FLAGS_IDE \<noteq> 0"
    "CAN_OBJ_FLAGS_IDE AND CAN_OBJ_FLAGS_RTR = 0"
    by (simp_all add: CAN_OBJ_FLAGS_IDE_def CAN_OBJ_FLAGS_RTR_def BIT_def)
  show "snd (mcp2517fd_canid_to_mcpid (cid OR CAN_EFF_FLAG)) = CAN_OBJ_FLAGS_IDE"
    by (rule canid_to_mcpid_extended(1) [OF e r])
  show "mcp2517fd_mcpid_to_canid (fst (mcp2517fd_canid_to_mcpid (cid OR CAN_EFF_FLAG)))
          CAN_OBJ_FLAGS_IDE = cid OR CAN_EFF_FLAG"
    by (rule bit_word_eqI)
       (auto simp add: mcpid_to_canid_extended [OF i] canid_to_mcpid_extended(2) [OF e r]
          bit_simps bit_can_flags dest: nb)
qed

text \<open>
  Claim C1. A standard identifier below \<open>2^11\<close>, encoded into the device object by
  \<^verbatim>\<open>mcp2517fd_canid_to_mcpid\<close> and decoded by \<^verbatim>\<open>mcp2517fd_mcpid_to_canid\<close>, comes back
  unchanged, with the extended-id flag clear (in the device object and in the identifier
  decoded). An extended identifier below \<open>2^29\<close>, submitted with the extended-id flag,
  comes back unchanged with the extended-id flag set.
\<close>

theorem identifier_round_trip:
  "(sid < 2 ^ 11 \<longrightarrow>
      (case mcp2517fd_canid_to_mcpid sid of (mcpid, mcpflags) \<Rightarrow>
         mcp2517fd_mcpid_to_canid mcpid mcpflags = sid \<and>
         mcp2517fd_mcpid_to_canid mcpid mcpflags AND CAN_EFF_FLAG = 0 \<and>
         mcpflags AND CAN_OBJ_FLAGS_IDE = 0)) \<and>
   (eid < 2 ^ 29 \<longrightarrow>
      (case mcp2517fd_canid_to_mcpid (eid OR CAN_EFF_FLAG) of (mcpid, mcpflags) \<Rightarrow>
         mcp2517fd_mcpid_to_canid mcpid mcpflags = eid OR CAN_EFF_FLAG \<and>
         mcp2517fd_mcpid_to_canid mcpid mcpflags AND CAN_EFF_FLAG = CAN_EFF_FLAG \<and>
         mcpflags AND CAN_OBJ_FLAGS_IDE = CAN_OBJ_FLAGS_IDE))"
proof (intro conjI impI)
  assume "sid < 2 ^ 11"
  from round_trip_standard [OF this]
  show "case mcp2517fd_canid_to_mcpid sid of (mcpid, mcpflags) \<Rightarrow>
          mcp2517fd_mcpid_to_canid mcpid mcpflags = sid \<and>
          mcp2517fd_mcpid_to_canid mcpid mcpflags AND CAN_EFF_FLAG = 0 \<and>
          mcpflags AND CAN_OBJ_FLAGS_IDE = 0"
    by simp
next
  assume "eid < 2 ^ 29"
  from round_trip_extended [OF this]
  have "mcp2517fd_canid_to_mcpid (eid OR CAN_EFF_FLAG)
          = (fst (mcp2517fd_canid_to_mcpid (eid OR CAN_EFF_FLAG)), CAN_OBJ_FLAGS_IDE)"
    and "mcp2517fd_mcpid_to_canid (fst (mcp2517fd_canid_to_mcpid (eid OR CAN_EFF_FLAG)))
           CAN_OBJ_FLAGS_IDE = eid OR CAN_EFF_FLAG"
    by (simp_all add: prod_eq_iff)
  moreover have "(eid OR CAN_EFF_FLAG) AND CAN_EFF_FLAG = CAN_EFF_FLAG"
    by (rule bit_word_eqI) (auto simp add: bit_simps)
  ultimately
  show "case mcp2517fd_canid_to_mcpid (eid OR CAN_EFF_FLAG) of (mcpid, mcpflags) \<Rightarrow>
          mcp2517fd_mcpid_to_canid mcpid mcpflags = eid OR CAN_EFF_FLAG \<and>
          mcp2517fd_mcpid_to_canid mcpid mcpflags AND CAN_EFF_FLAG = CAN_EFF_FLAG \<and>
          mcpflags AND CAN_OBJ_FLAGS_IDE = CAN_OBJ_FLAGS_IDE"
    by (metis (mono_tags, lifting) and.idem case_prod_conv)
qed

theorem identifier_round_trip_witness:
  "((0x123 :: u32) < 2 ^ 11 \<and>
      (case mcp2517fd_canid_to_mcpid 0x123 of (mcpid, mcpflags) \<Rightarrow>
         mcp2517fd_mcpid_to_canid mcpid mcpflags = 0x123 \<and>
         mcp2517fd_mcpid_to_canid mcpid mcpflags AND CAN_EFF_FLAG = 0 \<and>
         mcpflags AND CAN_OBJ_FLAGS_IDE = 0)) \<and>
   ((0x12345678 :: u32) < 2 ^ 29 \<and>
      (case mcp2517fd_canid_to_mcpid (0x12345678 OR CAN_EFF_FLAG) of (mcpid, mcpflags) \<Rightarrow>
         mcp2517fd_mcpid_to_canid mcpid mcpflags = 0x12345678 OR CAN_EFF_FLAG \<and>
         mcp2517fd_mcpid_to_canid mcpid mcpflags AND CAN_EFF_FLAG = CAN_EFF_FLAG \<and>
         mcpflags AND CAN_OBJ_FLAGS_IDE = CAN_OBJ_FLAGS_IDE))"
proof -
  have h1: "(0x123 :: u32) < 2 ^ 11" and h2: "(0x12345678 :: u32) < 2 ^ 29"
    by simp_all
  note t = identifier_round_trip [of "0x123" "0x12345678"]
  show ?thesis
    using t by (simp only: h1 h2 simp_thms)
qed

lemma bit_canid_flags:
  "bit (snd (mcp2517fd_canid_to_mcpid c)) n \<Longrightarrow> n = 4 \<or> n = 5"
  by (auto simp add: mcp2517fd_canid_to_mcpid_def Let_def CAN_OBJ_FLAGS_IDE_def
      CAN_OBJ_FLAGS_RTR_def bit_BIT bit_simps split: if_splits)

lemma dlc_field:
  assumes "\<And>n. n < 4 \<Longrightarrow> bit flags n = bit d n" and "d < 16"
  shows "drop_bit CAN_OBJ_FLAGS_DLC_SHIFT (flags AND CAN_OBJ_FLAGS_DLC_MASK) = ucast (d :: u8)"
proof (rule bit_word_eqI)
  fix n :: nat
  assume "n < LENGTH(32)"
  have hi: "\<not> bit d m" if "4 \<le> m" for m
  proof
    assume b: "bit d m"
    from assms(2) have "d AND mask 4 = d" by (intro less_mask_eq) simp
    then have "bit (d AND mask 4) m" using b by simp
    then show False using that by (simp add: bit_simps)
  qed
  show "bit (drop_bit CAN_OBJ_FLAGS_DLC_SHIFT (flags AND CAN_OBJ_FLAGS_DLC_MASK)) n
          = bit (ucast d :: u32) n"
    using assms(1) [of n] hi [of n]
    by (cases "n < 4")
       (auto simp add: CAN_OBJ_FLAGS_DLC_SHIFT_def CAN_OBJ_FLAGS_DLC_MASK_def
          CAN_OBJ_FLAGS_DLC_BITS_def bit_GENMASK bit_simps)
qed

lemma classic_flags_low:
  assumes "n < 4"
  shows "bit ((((snd (mcp2517fd_canid_to_mcpid c) OR push_bit CAN_OBJ_FLAGS_DLC_SHIFT (ucast d))
            OR (if P then CAN_OBJ_FLAGS_IDE else 0)) OR (if Q then CAN_OBJ_FLAGS_RTR else 0))
            OR push_bit CAN_OBJ_FLAGS_SEQ_SHIFT (word_of_int fifo)) n = bit (d :: u8) n"
  using assms bit_canid_flags [of c n]
  by (auto simp add: CAN_OBJ_FLAGS_DLC_SHIFT_def CAN_OBJ_FLAGS_SEQ_SHIFT_def
      CAN_OBJ_FLAGS_IDE_def CAN_OBJ_FLAGS_RTR_def bit_BIT bit_simps)

lemma fd_flags_low:
  assumes "n < 4"
  shows "bit (((((((snd (mcp2517fd_canid_to_mcpid c) OR push_bit CAN_OBJ_FLAGS_DLC_SHIFT (ucast d))
            OR (if P then CAN_OBJ_FLAGS_IDE else 0)) OR (if Q then CAN_OBJ_FLAGS_RTR else 0))
            OR (if R then CAN_OBJ_FLAGS_BRS else 0)) OR (if S then CAN_OBJ_FLAGS_ESI else 0))
            OR CAN_OBJ_FLAGS_FDF)
            OR push_bit CAN_OBJ_FLAGS_SEQ_SHIFT (word_of_int fifo)) n = bit (d :: u8) n"
  using assms bit_canid_flags [of c n]
  by (auto simp add: CAN_OBJ_FLAGS_DLC_SHIFT_def CAN_OBJ_FLAGS_SEQ_SHIFT_def
      CAN_OBJ_FLAGS_IDE_def CAN_OBJ_FLAGS_RTR_def CAN_OBJ_FLAGS_BRS_def CAN_OBJ_FLAGS_ESI_def
      CAN_OBJ_FLAGS_FDF_def bit_BIT bit_simps)

lemma transmit_message_xfers:
  assumes "cf_can_dlc frame \<le> 8"
  shows "case mcp2517fd_transmit_message d0 priv fifo frame of (ret, frame', priv') \<Rightarrow>
           frame' = frame \<and>
           (\<exists>obj_id obj_flags rest.
              spi_xfers (spi priv') =
                spi_xfers (spi priv)
                @ Spi_write (mcp2517fd_calc_cmd_addr INSTRUCTION_WRITE
                               (ucast (FIFO_DATA (fifo_address priv (nat fifo))))
                             @ le32_bytes obj_id @ le32_bytes obj_flags
                             @ map (cf_data frame) [0..<unat (cf_can_dlc frame)]
                             @ map d0 [2 + sizeof_obj_tx + unat (cf_can_dlc frame)..<
                                       2 + sizeof_obj_tx + ALIGN4 (unat (cf_can_dlc frame))]) # rest
              \<and> drop_bit CAN_OBJ_FLAGS_DLC_SHIFT (obj_flags AND CAN_OBJ_FLAGS_DLC_MASK)
                  = ucast (cf_can_dlc frame))"
proof -
  let ?fl = "((snd (mcp2517fd_canid_to_mcpid (cf_can_id frame))
               OR push_bit CAN_OBJ_FLAGS_DLC_SHIFT (ucast (cf_can_dlc frame)))
               OR (if cf_can_id frame AND CAN_EFF_FLAG \<noteq> 0 then CAN_OBJ_FLAGS_IDE else 0))
               OR (if cf_can_id frame AND CAN_RTR_FLAG \<noteq> 0 then CAN_OBJ_FLAGS_RTR else 0)"
  let ?id = "fst (mcp2517fd_canid_to_mcpid (cf_can_id frame))"
  let ?fl' = "?fl OR push_bit CAN_OBJ_FLAGS_SEQ_SHIFT (word_of_int fifo)"
  let ?r = "mcp2517fd_transmit_message_common d0 priv fifo (?id, ?fl)
              (unat (cf_can_dlc frame)) (cf_data frame)"
  have eq: "mcp2517fd_transmit_message d0 priv fifo frame = (fst ?r, frame, snd ?r)"
    using assms by (simp add: mcp2517fd_transmit_message_def Let_def case_prod_beta not_less [symmetric])
  obtain rest where
    r: "spi_xfers (spi (snd ?r))
        = spi_xfers (spi priv)
          @ Spi_write (mcp2517fd_calc_cmd_addr INSTRUCTION_WRITE
                         (ucast (FIFO_DATA (fifo_address priv (nat fifo))))
                       @ le32_bytes ?id @ le32_bytes ?fl'
                       @ map (cf_data frame) [0..<unat (cf_can_dlc frame)]
                       @ map d0 [2 + sizeof_obj_tx + unat (cf_can_dlc frame)..<
                                 2 + sizeof_obj_tx + ALIGN4 (unat (cf_can_dlc frame))]) # rest"
    using transmit_message_common_xfers by blast
  from assms have "cf_can_dlc frame < 16"
    by (simp add: word_le_nat_alt word_less_nat_alt)
  then have dlc: "drop_bit CAN_OBJ_FLAGS_DLC_SHIFT (?fl' AND CAN_OBJ_FLAGS_DLC_MASK)
                    = ucast (cf_can_dlc frame)"
    by (intro dlc_field classic_flags_low)
  show ?thesis
    unfolding eq
    apply (simp only: prod.case)
    apply (rule conjI [OF refl])
    apply (rule exI [of _ ?id], rule exI [of _ ?fl'], rule exI [of _ rest])
    apply (rule conjI [OF r dlc])
    done
qed


text \<open>
  Claim C10. For every classic frame whose \<^verbatim>\<open>can_dlc\<close> exceeds 8,
  \<^verbatim>\<open>mcp2517fd_transmit_message\<close> first sets \<^verbatim>\<open>can_dlc\<close> to 8 in the frame itself; the
  object written to the device then carries the length code 8, followed by exactly the
  first 8 payload bytes of the frame.
\<close>

theorem transmit_message_dlc_clamp:
  assumes "8 < cf_can_dlc frame"
  shows "case mcp2517fd_transmit_message d0 priv fifo frame of (ret, frame', priv') \<Rightarrow>
           frame' = frame\<lparr>cf_can_dlc := 8\<rparr> \<and>
           (\<exists>obj_id obj_flags rest.
              spi_xfers (spi priv') =
                spi_xfers (spi priv)
                @ Spi_write (mcp2517fd_calc_cmd_addr INSTRUCTION_WRITE
                               (ucast (FIFO_DATA (fifo_address priv (nat fifo))))
                             @ le32_bytes obj_id @ le32_bytes obj_flags
                             @ map (cf_data frame) [0..<8]) # rest
              \<and> drop_bit CAN_OBJ_FLAGS_DLC_SHIFT (obj_flags AND CAN_OBJ_FLAGS_DLC_MASK) = 8)"
proof -
  have same: "mcp2517fd_transmit_message d0 priv fifo frame
                = mcp2517fd_transmit_message d0 priv fifo (frame\<lparr>cf_can_dlc := 8\<rparr>)"
    using assms by (simp add: mcp2517fd_transmit_message_def)
  show ?thesis
    unfolding same
    using transmit_message_xfers [where frame = "frame\<lparr>cf_can_dlc := 8\<rparr>" and ?d0.0 = d0
        and priv = priv and fifo = fifo]
    by (simp add: ALIGN4_def)
qed

theorem transmit_message_dlc_clamp_witness:
  "8 < cf_can_dlc example_frame \<and>
   (case mcp2517fd_transmit_message (\<lambda>k. 0) example_priv 1 example_frame of
      (ret, frame', priv') \<Rightarrow>
        frame' = example_frame\<lparr>cf_can_dlc := 8\<rparr> \<and>
        (\<exists>obj_id obj_flags rest.
           spi_xfers (spi priv') =
             spi_xfers (spi example_priv)
             @ Spi_write (mcp2517fd_calc_cmd_addr INSTRUCTION_WRITE
                            (ucast (FIFO_DATA (fifo_address example_priv (nat 1))))
                          @ le32_bytes obj_id @ le32_bytes obj_flags
                          @ map (cf_data example_frame) [0..<8]) # rest
           \<and> drop_bit CAN_OBJ_FLAGS_DLC_SHIFT (obj_flags AND CAN_OBJ_FLAGS_DLC_MASK) = 8))"
proof -
  have h: "8 < cf_can_dlc example_frame"
    by (simp add: example_frame_def)
  show ?thesis
    using h transmit_message_dlc_clamp [OF h, where ?d0.0 = "\<lambda>k. 0" and priv = example_priv
        and fifo = 1]
    by simp
qed

lemma dlc2len_table:
  "map can_dlc2len [0, 1, 2, 3, 4, 5, 6, 7, 8, 9, 10, 11, 12, 13, 14, 15]
     = [0, 1, 2, 3, 4, 5, 6, 7, 8, 12, 16, 20, 24, 32, 48, 64]"
  by (simp add: can_dlc2len_def dlc2len_def)

lemma u8_le_64_cases: "(len :: u8) \<le> 64 \<Longrightarrow> \<exists>n\<in>set [0..<65]. len = of_nat n"
proof -
  assume "len \<le> 64"
  then have "unat len < 65" by (simp add: word_le_nat_alt)
  then have "unat len \<in> set [0..<65]" by simp
  moreover have "len = of_nat (unat len)" by simp
  ultimately show ?thesis by blast
qed

lemma u8_nibble_cases: "\<exists>m\<in>set [0..<16]. (c :: u8) AND 0x0F = of_nat m"
proof -
  have "c AND 0x0F \<le> 0x0F" by (rule word_and_le1)
  then have "unat (c AND 0x0F) < 16" by (simp add: word_le_nat_alt)
  then have "unat (c AND 0x0F) \<in> set [0..<16]" by simp
  moreover have "c AND 0x0F = of_nat (unat (c AND 0x0F))" by simp
  ultimately show ?thesis by blast
qed

lemma can_dlc2len_nibble: "can_dlc2len c = can_dlc2len (c AND 0x0F)"
  by (simp add: can_dlc2len_def and.assoc)

lemma len2dlc_round_up_all:
  "\<forall>n\<in>set [0..<65]. (of_nat n :: u8) \<le> can_dlc2len (can_len2dlc (of_nat n))"
  by code_simp

lemma len2dlc_least_all:
  "\<forall>n\<in>set [0..<65]. \<forall>m\<in>set [0..<16].
     (of_nat n :: u8) \<le> can_dlc2len (of_nat m) \<longrightarrow>
     can_dlc2len (can_len2dlc (of_nat n)) \<le> can_dlc2len (of_nat m)"
  by code_simp

lemma len2dlc_nibble_all:
  "\<forall>n\<in>set [0..<65]. can_len2dlc (of_nat n) < 16"
  by code_simp

lemma can_len2dlc_round_up:
  assumes "len \<le> 64"
  shows "len \<le> can_dlc2len (can_len2dlc len)"
  using u8_le_64_cases [OF assms] len2dlc_round_up_all by blast

lemma can_len2dlc_least:
  assumes "len \<le> 64" and "len \<le> can_dlc2len c"
  shows "can_dlc2len (can_len2dlc len) \<le> can_dlc2len c"
proof -
  obtain n where n: "n \<in> set [0..<65]" "len = of_nat n"
    using u8_le_64_cases [OF assms(1)] by blast
  obtain m where m: "m \<in> set [0..<16]" "c AND 0x0F = of_nat m"
    using u8_nibble_cases by blast
  have c: "can_dlc2len c = can_dlc2len (of_nat m)"
    using can_dlc2len_nibble [of c] m(2) by simp
  show ?thesis
    using len2dlc_least_all n m(1) assms(2) unfolding c by blast
qed

lemma can_len2dlc_lt_16: "can_len2dlc len < 16"
proof (cases "64 < len")
  case True
  then show ?thesis by (simp add: can_len2dlc_def)
next
  case False
  then have "len \<le> 64" by simp
  then show ?thesis
    using u8_le_64_cases len2dlc_nibble_all by blast
qed

lemma ucast_u8_u32_u8: "(ucast (ucast (x :: u8) :: u32) :: u8) = x"
  by (rule bit_word_eqI) (simp add: bit_simps)

lemma transmit_fdmessage_xfers:
  "case mcp2517fd_transmit_fdmessage d0 priv fifo frame of (ret, frame', priv') \<Rightarrow>
     frame' = frame\<lparr>fd_len := can_dlc2len (can_len2dlc (fd_len frame))\<rparr> \<and>
     (\<exists>obj_id obj_flags rest.
        spi_xfers (spi priv') =
          spi_xfers (spi priv)
          @ Spi_write (mcp2517fd_calc_cmd_addr INSTRUCTION_WRITE
                         (ucast (FIFO_DATA (fifo_address priv (nat fifo))))
                       @ le32_bytes obj_id @ le32_bytes obj_flags
                       @ map (fd_data frame) [0..<unat (fd_len frame')]
                       @ map d0 [2 + sizeof_obj_tx + unat (fd_len frame')..<
                                 2 + sizeof_obj_tx + ALIGN4 (unat (fd_len frame'))]) # rest
        \<and> can_dlc2len (ucast (drop_bit CAN_OBJ_FLAGS_DLC_SHIFT
                                 (obj_flags AND CAN_OBJ_FLAGS_DLC_MASK))) = fd_len frame')"
proof -
  let ?dlc = "can_len2dlc (fd_len frame)"
  let ?len = "can_dlc2len ?dlc"
  let ?fl = "((((((snd (mcp2517fd_canid_to_mcpid (fd_can_id frame))
               OR push_bit CAN_OBJ_FLAGS_DLC_SHIFT (ucast ?dlc))
               OR (if fd_can_id frame AND CAN_EFF_FLAG \<noteq> 0 then CAN_OBJ_FLAGS_IDE else 0))
               OR (if fd_can_id frame AND CAN_RTR_FLAG \<noteq> 0 then CAN_OBJ_FLAGS_RTR else 0))
               OR (if fd_flags frame AND CANFD_BRS \<noteq> 0 then CAN_OBJ_FLAGS_BRS else 0))
               OR (if fd_flags frame AND CANFD_ESI \<noteq> 0 then CAN_OBJ_FLAGS_ESI else 0))
               OR CAN_OBJ_FLAGS_FDF)"
  let ?id = "fst (mcp2517fd_canid_to_mcpid (fd_can_id frame))"
  let ?fl' = "?fl OR push_bit CAN_OBJ_FLAGS_SEQ_SHIFT (word_of_int fifo)"
  let ?r = "mcp2517fd_transmit_message_common d0 priv fifo (?id, ?fl) (unat ?len) (fd_data frame)"
  have eq: "mcp2517fd_transmit_fdmessage d0 priv fifo frame
              = (fst ?r, frame\<lparr>fd_len := ?len\<rparr>, snd ?r)"
    by (simp add: mcp2517fd_transmit_fdmessage_def Let_def case_prod_beta)
  obtain rest where
    r: "spi_xfers (spi (snd ?r))
        = spi_xfers (spi priv)
          @ Spi_write (mcp2517fd_calc_cmd_addr INSTRUCTION_WRITE
                         (ucast (FIFO_DATA (fifo_address priv (nat fifo))))
                       @ le32_bytes ?id @ le32_bytes ?fl'
                       @ map (fd_data frame) [0..<unat ?len]
                       @ map d0 [2 + sizeof_obj_tx + unat ?len..<
                                 2 + sizeof_obj_tx + ALIGN4 (unat ?len)]) # rest"
    using transmit_message_common_xfers by blast
  have "drop_bit CAN_OBJ_FLAGS_DLC_SHIFT (?fl' AND CAN_OBJ_FLAGS_DLC_MASK) = ucast ?dlc"
    by (intro dlc_field fd_flags_low can_len2dlc_lt_16)
  then have dlc: "can_dlc2len (ucast (drop_bit CAN_OBJ_FLAGS_DLC_SHIFT
                    (?fl' AND CAN_OBJ_FLAGS_DLC_MASK))) = ?len"
    by (simp add: ucast_u8_u32_u8)
  have sel: "fd_len (frame\<lparr>fd_len := ?len\<rparr>) = ?len" "fd_data (frame\<lparr>fd_len := ?len\<rparr>) = fd_data frame"
    by simp_all
  show ?thesis
    unfolding eq
    apply (simp only: prod.case sel)
    apply (rule conjI [OF refl])
    apply (rule exI [of _ ?id], rule exI [of _ ?fl'], rule exI [of _ rest])
    apply (rule conjI [OF r dlc])
    done
qed


text \<open>
  Claim C2. For every payload length from 0 to 64, the length of the code of the length
  is at least the length, and it is the smallest length that a code stands for with that
  property; the codes 0 to 8 stand for 0 to 8 bytes and the codes 9 to 15 for 12, 16, 20,
  24, 32, 48 and 64 bytes. \<^verbatim>\<open>mcp2517fd_transmit_fdmessage\<close> replaces the length of the
  frame by that rounded length before it encodes the frame: the length code in the
  object written to the device stands for the corrected length of the frame, and that
  many payload bytes follow the object.
\<close>

theorem fd_length_code_rounding:
  assumes "fd_len frame \<le> 64"
  shows "fd_len frame \<le> can_dlc2len (can_len2dlc (fd_len frame)) \<and>
         (\<forall>c. fd_len frame \<le> can_dlc2len c \<longrightarrow>
                can_dlc2len (can_len2dlc (fd_len frame)) \<le> can_dlc2len c) \<and>
         map can_dlc2len [0, 1, 2, 3, 4, 5, 6, 7, 8, 9, 10, 11, 12, 13, 14, 15]
           = [0, 1, 2, 3, 4, 5, 6, 7, 8, 12, 16, 20, 24, 32, 48, 64] \<and>
         (case mcp2517fd_transmit_fdmessage d0 priv fifo frame of (ret, frame', priv') \<Rightarrow>
            frame' = frame\<lparr>fd_len := can_dlc2len (can_len2dlc (fd_len frame))\<rparr> \<and>
            (\<exists>obj_id obj_flags rest.
               spi_xfers (spi priv') =
                 spi_xfers (spi priv)
                 @ Spi_write (mcp2517fd_calc_cmd_addr INSTRUCTION_WRITE
                                (ucast (FIFO_DATA (fifo_address priv (nat fifo))))
                              @ le32_bytes obj_id @ le32_bytes obj_flags
                              @ map (fd_data frame) [0..<unat (fd_len frame')]
                              @ map d0 [2 + sizeof_obj_tx + unat (fd_len frame')..<
                                        2 + sizeof_obj_tx + ALIGN4 (unat (fd_len frame'))]) # rest
               \<and> can_dlc2len (ucast (drop_bit CAN_OBJ_FLAGS_DLC_SHIFT
                                        (obj_flags AND CAN_OBJ_FLAGS_DLC_MASK))) = fd_len frame'))"
  using can_len2dlc_round_up [OF assms] can_len2dlc_least [OF assms] dlc2len_table
    transmit_fdmessage_xfers [where ?d0.0 = d0 and priv = priv and fifo = fifo and frame = frame]
  by blast

theorem fd_length_code_rounding_witness:
  "fd_len example_fdframe \<le> 64 \<and>
   fd_len example_fdframe \<le> can_dlc2len (can_len2dlc (fd_len example_fdframe)) \<and>
   fd_len example_fdframe \<le> can_dlc2len 9 \<and>
   can_dlc2len (can_len2dlc (fd_len example_fdframe)) \<le> can_dlc2len 9 \<and>
   (case mcp2517fd_transmit_fdmessage (\<lambda>k. 0) example_priv 1 example_fdframe of
      (ret, frame', priv') \<Rightarrow>
        frame' = example_fdframe\<lparr>fd_len := can_dlc2len (can_len2dlc (fd_len example_fdframe))\<rparr>)"
proof -
  have h: "fd_len example_fdframe \<le> 64"
    by (simp add: example_fdframe_def)
  have h9: "fd_len example_fdframe \<le> can_dlc2len 9"
    by (simp add: example_fdframe_def can_dlc2len_def dlc2len_def)
  note t = fd_length_code_rounding [OF h, where ?d0.0 = "\<lambda>k. 0" and priv = example_priv
      and fifo = 1]
  from t have "can_dlc2len (can_len2dlc (fd_len example_fdframe)) \<le> can_dlc2len 9"
    using h9 by blast
  moreover from t have "fd_len example_fdframe \<le> can_dlc2len (can_len2dlc (fd_len example_fdframe))"
    by blast
  moreover from t
  have "case mcp2517fd_transmit_fdmessage (\<lambda>k. 0) example_priv 1 example_fdframe of
      (ret, frame', priv') \<Rightarrow>
        frame' = example_fdframe\<lparr>fd_len := can_dlc2len (can_len2dlc (fd_len example_fdframe))\<rparr>"
    by (simp add: case_prod_beta)
  ultimately show ?thesis
    using h h9 by (intro conjI)
qed

section \<open>Masked register access\<close>

lemma cmd_read_mask_zero: "mcp2517fd_cmd_read_mask bus reg 0 = (Inl (- EINVAL), bus)"
  by (simp add: mcp2517fd_cmd_read_mask_def)

lemma cmd_write_mask_zero: "mcp2517fd_cmd_write_mask bus reg v 0 = (- EINVAL, bus)"
  by (simp add: mcp2517fd_cmd_write_mask_def)

lemma cmd_write_mask_xfers:
  assumes "msk \<noteq> 0"
  shows "spi_xfers (snd (mcp2517fd_cmd_write_mask bus reg v msk)) =
           spi_xfers bus
           @ [Spi_write (mcp2517fd_calc_cmd_addr INSTRUCTION_WRITE
                           (ucast (reg + of_nat (nat ((ffs msk - 1) div 8))))
                         @ take (nat ((fls msk - 1) div 8) - nat ((ffs msk - 1) div 8) + 1)
                             (drop (nat ((ffs msk - 1) div 8)) (le32_bytes v)))]"
  using assms
  by (simp add: mcp2517fd_cmd_write_mask_def mcp2517fd_write_then_write_eq Let_def)

lemma cmd_read_mask_xfers:
  assumes "msk \<noteq> 0"
  shows "spi_xfers (snd (mcp2517fd_cmd_read_mask bus reg msk)) =
           spi_xfers bus
           @ [Spi_write_then_read (mcp2517fd_calc_cmd_addr INSTRUCTION_READ (ucast reg))
                (nat ((fls msk - 1) div 8) - nat ((ffs msk - 1) div 8) + 1)]"
  using assms
  by (simp add: mcp2517fd_cmd_read_mask_def mcp2517fd_cmd_readn_eq Let_def)

text \<open>
  Claim C3. With a mask of zero both masked accesses fail with \<^verbatim>\<open>-EINVAL\<close> and leave
  the bus alone (\<open>cmd_read_mask_zero\<close>, \<open>cmd_write_mask_zero\<close>), and the masked write
  covers the bytes from \<open>first_byte\<close> to \<open>last_byte\<close> at the address
  \<open>reg + first_byte\<close> (\<open>cmd_write_mask_xfers\<close>). The masked read has the length
  \<open>last_byte - first_byte + 1\<close> but starts at the address \<open>reg\<close> itself
  (\<open>cmd_read_mask_xfers\<close>): with the register \<open>0x11223344\<close> at address 0 and the mask
  \<open>0x0000FF00\<close>, it reads one byte at address 0, the byte \<open>0x44\<close>, and returns it in the
  place of byte 1, the value \<open>0x4400\<close>, where the bytes that cover the mask give
  \<open>0x3300\<close>. The full read of the same register gives \<open>0x11223344\<close>, and the masked write
  with the same mask addresses byte 1.
\<close>

theorem cmd_read_mask_reads_register_base:
  "fst (mcp2517fd_cmd_read_mask (register_spi example_regs) 0 0x0000FF00) = Inr 0x00004400 \<and>
   spi_xfers (snd (mcp2517fd_cmd_read_mask (register_spi example_regs) 0 0x0000FF00))
     = [Spi_write_then_read [0x30, 0x00] 1] \<and>
   fst (mcp2517fd_cmd_read (register_spi example_regs) 0) = Inr 0x11223344 \<and>
   spi_xfers (snd (mcp2517fd_cmd_write_mask (register_spi example_regs) 0 0x11223344 0x0000FF00))
     = [Spi_write [0x20, 0x01, 0x33]]"
  by code_simp

section \<open>The transmit scheduler\<close>

lemma word_neq_0_bit: "(x :: u32) \<noteq> 0 \<Longrightarrow> \<exists>n<32. bit x n"
proof -
  assume "x \<noteq> 0"
  then obtain n where n: "bit x n"
    by (auto simp add: bit_eq_iff)
  then have "n < 32"
    using bit_imp_le_length [of x n] by simp
  with n show ?thesis by blast
qed

lemma ffs_lowest:
  assumes "x \<noteq> 0"
  shows "\<exists>n<32. bit x n \<and> (\<forall>m<n. \<not> bit x m) \<and> ffs x = int n + 1"
proof -
  obtain k where k: "k < 32" "bit x k"
    using word_neq_0_bit [OF assms] by blast
  then have "find (bit x) [0..<32] \<noteq> None"
    by (auto simp add: find_None_iff)
  then obtain n where n: "find (bit x) [0..<32] = Some n"
    by blast
  then obtain i where i: "i < length [0..<32]" "bit x ([0..<32] ! i)" "n = [0..<32] ! i"
    "\<forall>j<i. \<not> bit x ([0..<32] ! j)"
    unfolding find_Some_iff by blast
  from i(1) have i32: "i < 32" by simp
  then have ni: "n = i" using i(3) by simp
  have "\<forall>m<n. \<not> bit x m"
  proof (intro allI impI)
    fix m assume "m < n"
    then have "m < i" using ni by simp
    with i(4) have "\<not> bit x ([0..<32] ! m)" by blast
    moreover have "[0..<32] ! m = m" using \<open>m < i\<close> i32 by simp
    ultimately show "\<not> bit x m" by simp
  qed
  moreover have "bit x n" using i(2) i32 ni by simp
  moreover have "ffs x = int n + 1" by (simp add: ffs_def n)
  ultimately show ?thesis using i32 ni by blast
qed

lemma transmit_message_common_priv:
  "snd (mcp2517fd_transmit_message_common d0 priv fifo obj len payload)
     = priv\<lparr>spi := spi (snd (mcp2517fd_transmit_message_common d0 priv fifo obj len payload))\<rparr>"
  by (simp add: mcp2517fd_transmit_message_common_def Let_def case_prod_beta)

lemma transmit_message_priv:
  "snd (snd (mcp2517fd_transmit_message d0 priv fifo frame))
     = priv\<lparr>spi := spi (snd (snd (mcp2517fd_transmit_message d0 priv fifo frame)))\<rparr>"
  unfolding mcp2517fd_transmit_message_def Let_def case_prod_beta snd_conv
  by (rule transmit_message_common_priv)

lemma transmit_fdmessage_priv:
  "snd (snd (mcp2517fd_transmit_fdmessage d0 priv fifo frame))
     = priv\<lparr>spi := spi (snd (snd (mcp2517fd_transmit_fdmessage d0 priv fifo frame)))\<rparr>"
  unfolding mcp2517fd_transmit_fdmessage_def Let_def case_prod_beta snd_conv
  by (rule transmit_message_common_priv)

lemma transmit_message_fields:
  "tx_pending_mask (snd (snd (mcp2517fd_transmit_message d0 priv fifo frame))) = tx_pending_mask priv"
  "tx_work_skb (snd (snd (mcp2517fd_transmit_message d0 priv fifo frame))) = tx_work_skb priv"
  "tx_fifo_start (snd (snd (mcp2517fd_transmit_message d0 priv fifo frame))) = tx_fifo_start priv"
  "tx_fifos (snd (snd (mcp2517fd_transmit_message d0 priv fifo frame))) = tx_fifos priv"
  "fifo_usage (snd (snd (mcp2517fd_transmit_message d0 priv fifo frame))) = fifo_usage priv"
  "net (snd (snd (mcp2517fd_transmit_message d0 priv fifo frame))) = net priv"
  "dev_log (snd (snd (mcp2517fd_transmit_message d0 priv fifo frame))) = dev_log priv"
  "tx_work_queued (snd (snd (mcp2517fd_transmit_message d0 priv fifo frame))) = tx_work_queued priv"
  "tef_address (snd (snd (mcp2517fd_transmit_message d0 priv fifo frame))) = tef_address priv"
  "tef_address_start (snd (snd (mcp2517fd_transmit_message d0 priv fifo frame))) = tef_address_start priv"
  "tef_address_end (snd (snd (mcp2517fd_transmit_message d0 priv fifo frame))) = tef_address_end priv"
  "status (snd (snd (mcp2517fd_transmit_message d0 priv fifo frame))) = status priv"
  "force_quit (snd (snd (mcp2517fd_transmit_message d0 priv fifo frame))) = force_quit priv"
  "fifo_address (snd (snd (mcp2517fd_transmit_message d0 priv fifo frame))) = fifo_address priv"
  "rx_fifo_start (snd (snd (mcp2517fd_transmit_message d0 priv fifo frame))) = rx_fifo_start priv"
  "rx_fifos (snd (snd (mcp2517fd_transmit_message d0 priv fifo frame))) = rx_fifos priv"
  "can_ctrlmode (snd (snd (mcp2517fd_transmit_message d0 priv fifo frame))) = can_ctrlmode priv"
  "fifo_data (snd (snd (mcp2517fd_transmit_message d0 priv fifo frame))) = fifo_data priv"
  "rx_overflow (snd (snd (mcp2517fd_transmit_message d0 priv fifo frame))) = rx_overflow priv"
  by (subst transmit_message_priv, simp)+

lemma transmit_fdmessage_fields:
  "tx_pending_mask (snd (snd (mcp2517fd_transmit_fdmessage d0 priv fifo frame))) = tx_pending_mask priv"
  "tx_work_skb (snd (snd (mcp2517fd_transmit_fdmessage d0 priv fifo frame))) = tx_work_skb priv"
  "tx_fifo_start (snd (snd (mcp2517fd_transmit_fdmessage d0 priv fifo frame))) = tx_fifo_start priv"
  "tx_fifos (snd (snd (mcp2517fd_transmit_fdmessage d0 priv fifo frame))) = tx_fifos priv"
  "fifo_usage (snd (snd (mcp2517fd_transmit_fdmessage d0 priv fifo frame))) = fifo_usage priv"
  "net (snd (snd (mcp2517fd_transmit_fdmessage d0 priv fifo frame))) = net priv"
  "dev_log (snd (snd (mcp2517fd_transmit_fdmessage d0 priv fifo frame))) = dev_log priv"
  "tx_work_queued (snd (snd (mcp2517fd_transmit_fdmessage d0 priv fifo frame))) = tx_work_queued priv"
  "tef_address (snd (snd (mcp2517fd_transmit_fdmessage d0 priv fifo frame))) = tef_address priv"
  "tef_address_start (snd (snd (mcp2517fd_transmit_fdmessage d0 priv fifo frame))) = tef_address_start priv"
  "tef_address_end (snd (snd (mcp2517fd_transmit_fdmessage d0 priv fifo frame))) = tef_address_end priv"
  "status (snd (snd (mcp2517fd_transmit_fdmessage d0 priv fifo frame))) = status priv"
  "force_quit (snd (snd (mcp2517fd_transmit_fdmessage d0 priv fifo frame))) = force_quit priv"
  "fifo_address (snd (snd (mcp2517fd_transmit_fdmessage d0 priv fifo frame))) = fifo_address priv"
  "rx_fifo_start (snd (snd (mcp2517fd_transmit_fdmessage d0 priv fifo frame))) = rx_fifo_start priv"
  "rx_fifos (snd (snd (mcp2517fd_transmit_fdmessage d0 priv fifo frame))) = rx_fifos priv"
  "can_ctrlmode (snd (snd (mcp2517fd_transmit_fdmessage d0 priv fifo frame))) = can_ctrlmode priv"
  "fifo_data (snd (snd (mcp2517fd_transmit_fdmessage d0 priv fifo frame))) = fifo_data priv"
  "rx_overflow (snd (snd (mcp2517fd_transmit_fdmessage d0 priv fifo frame))) = rx_overflow priv"
  by (subst transmit_fdmessage_priv, simp)+

lemma tx_work_handler_defect:
  assumes "tx_work_fifo priv < uint (tx_fifo_start priv)"
  shows "mcp2517fd_tx_work_handler d0 priv
           = Some (priv\<lparr>dev_log := dev_log priv @ [Err_tx_fifo_not_valid (tx_work_fifo priv)]\<rparr>)"
  using assms by (simp add: mcp2517fd_tx_work_handler_def Let_def)

lemma tx_work_handler_valid:
  assumes "uint (tx_fifo_start priv) \<le> tx_work_fifo priv" and "tx_work_skb priv = Some skb"
  shows "\<exists>priv'. mcp2517fd_tx_work_handler d0 priv = Some priv' \<and>
           tx_pending_mask priv' = tx_pending_mask priv OR BIT (nat (tx_work_fifo priv)) \<and>
           tx_work_skb priv' = None \<and>
           tx_fifo_start priv' = tx_fifo_start priv \<and> tx_fifos priv' = tx_fifos priv \<and>
           fifo_usage priv' = (fifo_usage priv)
             (nat (tx_work_fifo priv) := fifo_usage priv (nat (tx_work_fifo priv)) + 1)"
  using assms
  by (cases skb)
     (simp_all add: mcp2517fd_tx_work_handler_def Let_def case_prod_beta not_less [symmetric]
        transmit_message_fields transmit_fdmessage_fields)

lemma tx_work_fifo_pending:
  assumes "tx_pending_mask priv \<noteq> 0"
  shows "\<exists>n<32. bit (tx_pending_mask priv) n \<and> (\<forall>m<n. \<not> bit (tx_pending_mask priv) m) \<and>
           tx_work_fifo priv = int n - 1"
  using ffs_lowest [OF assms] assms by (auto simp add: tx_work_fifo_def Let_def)

lemma tx_work_fifo_empty:
  assumes "tx_pending_mask priv = 0"
  shows "tx_work_fifo priv = uint (tx_fifo_start priv) + uint (tx_fifos priv) - 1"
  using assms by (simp add: tx_work_fifo_def)

lemma top_pending_fifo:
  assumes inv: "top_pending k priv" and k: "k < unat (tx_fifos priv)"
    and pool: "unat (tx_fifo_start priv) + unat (tx_fifos priv) \<le> 32"
  shows "tx_work_fifo priv = uint (tx_fifo_start priv) + uint (tx_fifos priv) - 1 - int k"
proof (cases "k = 0")
  case True
  with inv have "\<forall>n. \<not> bit (tx_pending_mask priv) n"
    by (auto simp add: top_pending_def)
  then have "tx_pending_mask priv = 0"
    by (simp add: bit_eq_iff)
  then show ?thesis
    using True by (simp add: tx_work_fifo_empty)
next
  case False
  let ?e = "unat (tx_fifo_start priv) + unat (tx_fifos priv)"
  from inv have bits: "\<And>n. bit (tx_pending_mask priv) n \<longleftrightarrow> ?e - k \<le> n \<and> n < ?e"
    by (simp add: top_pending_def)
  from False k have "bit (tx_pending_mask priv) (?e - k)"
    unfolding bits by simp
  then have "tx_pending_mask priv \<noteq> 0"
    by auto
  from tx_work_fifo_pending [OF this]
  obtain n where n: "bit (tx_pending_mask priv) n" "\<forall>m<n. \<not> bit (tx_pending_mask priv) m"
    "tx_work_fifo priv = int n - 1"
    by blast
  from n(1) have "?e - k \<le> n" unfolding bits by simp
  moreover have "\<not> ?e - k < n"
    using n(2) \<open>bit (tx_pending_mask priv) (?e - k)\<close> by blast
  ultimately have "n = ?e - k" by simp
  moreover have "k \<le> ?e" using k by simp
  ultimately have "int n = int ?e - int k"
    by (simp only: of_nat_diff)
  moreover have "int ?e = uint (tx_fifo_start priv) + uint (tx_fifos priv)"
    by (simp only: of_nat_add uint_nat)
  ultimately show ?thesis
    using n(3) by linarith
qed

lemma submit_frame_top_pending:
  assumes inv: "top_pending k priv" and k: "k < unat (tx_fifos priv)"
    and pool: "unat (tx_fifo_start priv) + unat (tx_fifos priv) \<le> 32"
  shows "\<exists>priv'. submit_frame d0 skb priv
             = Some (Some (uint (tx_fifo_start priv) + uint (tx_fifos priv) - 1 - int k), priv') \<and>
           top_pending (Suc k) priv' \<and>
           tx_fifo_start priv' = tx_fifo_start priv \<and> tx_fifos priv' = tx_fifos priv"
proof -
  let ?q = "priv\<lparr>net := netif_stop_queue (net priv), tx_work_skb := Some skb,
                   tx_work_queued := False\<rparr>"
  let ?e = "unat (tx_fifo_start priv) + unat (tx_fifos priv)"
  from inv have none: "tx_work_skb priv = None"
    and bits: "\<And>n. bit (tx_pending_mask priv) n \<longleftrightarrow> ?e - k \<le> n \<and> n < ?e"
    by (simp_all add: top_pending_def)
  have fq: "tx_work_fifo ?q = tx_work_fifo priv"
    by (simp add: tx_work_fifo_def Let_def)
  have f: "tx_work_fifo priv = uint (tx_fifo_start priv) + uint (tx_fifos priv) - 1 - int k"
    by (rule top_pending_fifo [OF inv k pool])
  have ie: "uint (tx_fifo_start priv) + uint (tx_fifos priv) = int ?e"
    by (simp only: of_nat_add uint_nat)
  have fn: "nat (tx_work_fifo priv) = ?e - 1 - k"
    unfolding f ie using k by linarith
  have "uint (tx_fifo_start priv) \<le> tx_work_fifo priv"
    unfolding f using k by (simp only: uint_nat)
  then have valid: "uint (tx_fifo_start ?q) \<le> tx_work_fifo ?q"
    unfolding fq by simp
  from tx_work_handler_valid [OF valid, of skb d0]
  obtain priv' where h: "mcp2517fd_tx_work_handler d0 ?q = Some priv'"
    "tx_pending_mask priv' = tx_pending_mask priv OR BIT (nat (tx_work_fifo priv))"
    "tx_work_skb priv' = None" "tx_fifo_start priv' = tx_fifo_start priv"
    "tx_fifos priv' = tx_fifos priv"
    unfolding fq by auto
  have s: "submit_frame d0 skb priv = Some (Some (tx_work_fifo priv), priv')"
    using none h(1) fq
    by (simp add: submit_frame_def mcp2517fd_start_xmit_def Let_def)
  have "top_pending (Suc k) priv'"
    unfolding top_pending_def h
    using k pool by (auto simp add: bit_simps bit_BIT bits fn)
  with s f h(4,5) show ?thesis
    by simp
qed

lemma submit_frames_top_pending:
  assumes "top_pending k priv" and "k + length skbs \<le> unat (tx_fifos priv)"
    and "unat (tx_fifo_start priv) + unat (tx_fifos priv) \<le> 32"
  shows "\<exists>priv'. submit_frames d0 skbs priv
           = Some (map (\<lambda>j. Some (uint (tx_fifo_start priv) + uint (tx_fifos priv) - 1
                                    - int (k + j))) [0..<length skbs], priv')"
  using assms
proof (induction skbs arbitrary: k priv)
  case Nil
  then show ?case by simp
next
  case (Cons skb skbs)
  from Cons.prems(2) have k: "k < unat (tx_fifos priv)" by simp
  from submit_frame_top_pending [OF Cons.prems(1) k Cons.prems(3), of d0 skb]
  obtain p1 where p1: "submit_frame d0 skb priv
             = Some (Some (uint (tx_fifo_start priv) + uint (tx_fifos priv) - 1 - int k), p1)"
    "top_pending (Suc k) p1" "tx_fifo_start p1 = tx_fifo_start priv"
    "tx_fifos p1 = tx_fifos priv"
    by blast
  have "Suc k + length skbs \<le> unat (tx_fifos p1)"
    and "unat (tx_fifo_start p1) + unat (tx_fifos p1) \<le> 32"
    using Cons.prems(2,3) p1(3,4) by simp_all
  from Cons.IH [OF p1(2) this]
  obtain p2 where p2: "submit_frames d0 skbs p1
           = Some (map (\<lambda>j. Some (uint (tx_fifo_start p1) + uint (tx_fifos p1) - 1
                                    - int (Suc k + j))) [0..<length skbs], p2)"
    by blast
  have m: "[0..<length (skb # skbs)] = 0 # map Suc [0..<length skbs]"
    by (simp add: upt_conv_Cons map_Suc_upt del: upt_Suc)
  show ?case
    unfolding m using p1 p2 by (simp add: comp_def)
qed

text \<open>
  Claim C4, as stated, fails in its last part. After seven submissions (fifos 7 down to
  1) and the completion of fifo 7, the lowest freed fifo of the pool is fifo 7, yet the
  next submission computes fifo 0 and leaves the Pending-Set as it was; and with the
  fifos 3 to 7 pending, the lowest free fifo is 1 while the fifo computed is 2.
\<close>

theorem tx_fifo_reuse_counterexample:
  "map_option fst (submit_frames zero_bytes (replicate 7 (Skb_can example_frame))
                     (example_priv\<lparr>spi := register_spi example_tef_regs\<rparr>))
     = Some [Some 7, Some 6, Some 5, Some 4, Some 3, Some 2, Some 1] \<and>
   map_option tx_pending_mask all_pending_then_fifo7_done = Some 0x7E \<and>
   map_option lowest_freed_fifo all_pending_then_fifo7_done = Some (Some 7) \<and>
   map_option fst next_submission = Some (Some 0) \<and>
   map_option (tx_pending_mask \<circ> snd) next_submission = Some 0x7E \<and>
   lowest_freed_fifo (example_priv\<lparr>tx_pending_mask := 0xF8\<rparr>) = Some 1 \<and>
   tx_work_fifo (example_priv\<lparr>tx_pending_mask := 0xF8\<rparr>) = 2"
  by code_simp

text \<open>
  Claim C7, as stated, fails. With the fifos 1 to 6 pending the work handler computes
  fifo 0, below the first fifo of the pool. It logs that and returns: the frame is still
  held in \<^verbatim>\<open>tx_work_skb\<close> (not dropped), no transmit error and no dropped frame is
  counted, and the next submission is refused with \<^verbatim>\<open>NETDEV_TX_BUSY\<close>.
\<close>

theorem scheduling_defect_counterexample:
  "tx_work_fifo defect_state = 0 \<and>
   uint (tx_fifo_start defect_state) = 1 \<and>
   mcp2517fd_tx_work_handler zero_bytes defect_state
     = Some (defect_state\<lparr>dev_log := [Err_tx_fifo_not_valid 0]\<rparr>) \<and>
   tx_work_skb (defect_state\<lparr>dev_log := [Err_tx_fifo_not_valid 0]\<rparr>)
     = Some (Skb_can example_frame) \<and>
   tx_errors (net (defect_state\<lparr>dev_log := [Err_tx_fifo_not_valid 0]\<rparr>)) = 0 \<and>
   tx_dropped (net (defect_state\<lparr>dev_log := [Err_tx_fifo_not_valid 0]\<rparr>)) = 0 \<and>
   fst (mcp2517fd_start_xmit pass_valid_skb (Skb_can example_frame)
          (defect_state\<lparr>dev_log := [Err_tx_fifo_not_valid 0]\<rparr>)) = NETDEV_TX_BUSY"
proof -
  have f: "tx_work_fifo defect_state = 0"
    by code_simp
  have s: "uint (tx_fifo_start defect_state) = 1"
    by (simp add: defect_state_def example_priv_def)
  have h: "mcp2517fd_tx_work_handler zero_bytes defect_state
     = Some (defect_state\<lparr>dev_log := [Err_tx_fifo_not_valid 0]\<rparr>)"
    using tx_work_handler_defect [of defect_state zero_bytes] f s
    by (simp add: defect_state_def example_priv_def)
  show ?thesis
    using f s h
    by (simp add: mcp2517fd_start_xmit_def)
       (simp add: defect_state_def example_priv_def example_net_def netif_stop_queue_def)
qed

lemma tx_work_fifo_below_lowest:
  assumes "tx_pending_mask priv \<noteq> 0" and "uint (tx_fifo_start priv) \<le> tx_work_fifo priv"
  shows "bit (tx_pending_mask priv) (nat (tx_work_fifo priv) + 1) \<and>
         (\<forall>m\<le>nat (tx_work_fifo priv). \<not> bit (tx_pending_mask priv) m)"
proof -
  from tx_work_fifo_pending [OF assms(1)]
  obtain n where n: "bit (tx_pending_mask priv) n" "\<forall>m<n. \<not> bit (tx_pending_mask priv) m"
    "tx_work_fifo priv = int n - 1"
    by blast
  have "0 \<le> uint (tx_fifo_start priv)" by simp
  with assms(2) n(3) have "0 < n" by linarith
  with n(3) have "nat (tx_work_fifo priv) + 1 = n" by simp
  with n(1,2) show ?thesis by auto
qed

lemma tx_work_fifo_first_pending:
  assumes "bit (tx_pending_mask priv) (unat (tx_fifo_start priv))"
  shows "tx_work_fifo priv < uint (tx_fifo_start priv)"
proof -
  have "tx_pending_mask priv \<noteq> 0"
  proof
    assume "tx_pending_mask priv = 0"
    with assms show False by simp
  qed
  from tx_work_fifo_pending [OF this]
  obtain n where n: "bit (tx_pending_mask priv) n" "\<forall>m<n. \<not> bit (tx_pending_mask priv) m"
    "tx_work_fifo priv = int n - 1"
    by blast
  from n(2) assms have "\<not> unat (tx_fifo_start priv) < n" by blast
  then have "int n \<le> uint (tx_fifo_start priv)"
    unfolding uint_nat by linarith
  with n(3) show ?thesis by linarith
qed

text \<open>
  Claim C4, amended. If the Pending-Set is not empty, the fifo computed by the work
  handler is the index of its lowest set bit minus one; if it is empty, it is the highest
  fifo of the pool. Hence the submission of up to \<^verbatim>\<open>tx_fifos\<close> frames to an empty
  Pending-Set, with no completion retired, assigns the fifos in strictly descending order
  from the highest fifo. After completions the fifo computed is still the one directly
  below the lowest pending fifo: when it lies in the pool it is free, as is every fifo
  below it, and the fifo above it is pending; when the first fifo of the pool is pending,
  the fifo computed lies below the pool.
\<close>

theorem tx_fifo_selection:
  "(tx_pending_mask p1 \<noteq> 0 \<longrightarrow>
      (\<exists>n<32. bit (tx_pending_mask p1) n \<and> (\<forall>m<n. \<not> bit (tx_pending_mask p1) m) \<and>
               tx_work_fifo p1 = int n - 1)) \<and>
   (tx_pending_mask p2 = 0 \<longrightarrow>
      tx_work_fifo p2 = uint (tx_fifo_start p2) + uint (tx_fifos p2) - 1) \<and>
   (tx_pending_mask p3 = 0 \<and> tx_work_skb p3 = None \<and> length skbs \<le> unat (tx_fifos p3) \<and>
    unat (tx_fifo_start p3) + unat (tx_fifos p3) \<le> 32 \<longrightarrow>
      (\<exists>p'. submit_frames d0 skbs p3
               = Some (map (\<lambda>j. Some (uint (tx_fifo_start p3) + uint (tx_fifos p3) - 1 - int j))
                         [0..<length skbs], p'))) \<and>
   (tx_pending_mask p4 \<noteq> 0 \<and> uint (tx_fifo_start p4) \<le> tx_work_fifo p4 \<longrightarrow>
      bit (tx_pending_mask p4) (nat (tx_work_fifo p4) + 1) \<and>
      (\<forall>m\<le>nat (tx_work_fifo p4). \<not> bit (tx_pending_mask p4) m)) \<and>
   (bit (tx_pending_mask p5) (unat (tx_fifo_start p5)) \<longrightarrow>
      tx_work_fifo p5 < uint (tx_fifo_start p5))"
proof (intro conjI impI)
  assume "tx_pending_mask p1 \<noteq> 0"
  then show "\<exists>n<32. bit (tx_pending_mask p1) n \<and> (\<forall>m<n. \<not> bit (tx_pending_mask p1) m) \<and>
               tx_work_fifo p1 = int n - 1"
    by (rule tx_work_fifo_pending)
next
  assume "tx_pending_mask p2 = 0"
  then show "tx_work_fifo p2 = uint (tx_fifo_start p2) + uint (tx_fifos p2) - 1"
    by (rule tx_work_fifo_empty)
next
  assume a: "tx_pending_mask p3 = 0 \<and> tx_work_skb p3 = None \<and>
    length skbs \<le> unat (tx_fifos p3) \<and> unat (tx_fifo_start p3) + unat (tx_fifos p3) \<le> 32"
  then have "top_pending 0 p3"
    by (simp add: top_pending_def)
  from submit_frames_top_pending [OF this, of skbs d0] a
  show "\<exists>p'. submit_frames d0 skbs p3
               = Some (map (\<lambda>j. Some (uint (tx_fifo_start p3) + uint (tx_fifos p3) - 1 - int j))
                         [0..<length skbs], p')"
    by simp
next
  assume "tx_pending_mask p4 \<noteq> 0 \<and> uint (tx_fifo_start p4) \<le> tx_work_fifo p4"
  then show "bit (tx_pending_mask p4) (nat (tx_work_fifo p4) + 1)"
    and "\<forall>m\<le>nat (tx_work_fifo p4). \<not> bit (tx_pending_mask p4) m"
    using tx_work_fifo_below_lowest [of p4] by blast+
next
  assume "bit (tx_pending_mask p5) (unat (tx_fifo_start p5))"
  then show "tx_work_fifo p5 < uint (tx_fifo_start p5)"
    by (rule tx_work_fifo_first_pending)
qed

theorem tx_fifo_selection_witness:
  "(tx_pending_mask three_pending \<noteq> 0 \<and> tx_work_fifo three_pending = 4) \<and>
   (tx_pending_mask example_priv = 0 \<and> tx_work_fifo example_priv = 7) \<and>
   (tx_pending_mask example_priv = 0 \<and> tx_work_skb example_priv = None \<and>
    length (replicate 3 (Skb_can example_frame)) \<le> unat (tx_fifos example_priv) \<and>
    unat (tx_fifo_start example_priv) + unat (tx_fifos example_priv) \<le> 32 \<and>
    map_option fst (submit_frames zero_bytes (replicate 3 (Skb_can example_frame)) example_priv)
      = Some [Some 7, Some 6, Some 5]) \<and>
   (tx_pending_mask three_pending \<noteq> 0 \<and>
    uint (tx_fifo_start three_pending) \<le> tx_work_fifo three_pending \<and>
    bit (tx_pending_mask three_pending) (nat (tx_work_fifo three_pending) + 1) \<and>
    \<not> bit (tx_pending_mask three_pending) (nat (tx_work_fifo three_pending))) \<and>
   (bit (tx_pending_mask defect_state) (unat (tx_fifo_start defect_state)) \<and>
    tx_work_fifo defect_state < uint (tx_fifo_start defect_state))"
proof -
  note t = tx_fifo_selection [of three_pending example_priv example_priv
      "replicate 3 (Skb_can example_frame)" zero_bytes three_pending defect_state]
  have h1: "tx_pending_mask three_pending \<noteq> 0"
    by (simp add: three_pending_def)
  have h2: "tx_pending_mask example_priv = 0"
    by (simp add: example_priv_def)
  have h3: "tx_pending_mask example_priv = 0 \<and> tx_work_skb example_priv = None \<and>
    length (replicate 3 (Skb_can example_frame)) \<le> unat (tx_fifos example_priv) \<and>
    unat (tx_fifo_start example_priv) + unat (tx_fifos example_priv) \<le> 32"
    by (simp add: example_priv_def)
  have f4: "tx_work_fifo three_pending = 4"
    by code_simp
  have h4: "tx_pending_mask three_pending \<noteq> 0 \<and>
    uint (tx_fifo_start three_pending) \<le> tx_work_fifo three_pending"
    unfolding f4 by (simp add: three_pending_def example_priv_def)
  have h5: "bit (tx_pending_mask defect_state) (unat (tx_fifo_start defect_state))"
    by (simp add: defect_state_def example_priv_def)
  from t h3 obtain p' where
    "submit_frames zero_bytes (replicate 3 (Skb_can example_frame)) example_priv
       = Some (map (\<lambda>j. Some (uint (tx_fifo_start example_priv) + uint (tx_fifos example_priv)
                                - 1 - int j))
                 [0..<length (replicate 3 (Skb_can example_frame))], p')"
    by blast
  then have c3: "map_option fst
      (submit_frames zero_bytes (replicate 3 (Skb_can example_frame)) example_priv)
      = Some [Some 7, Some 6, Some 5]"
    by (simp add: example_priv_def upt_rec)
  from t h2 have c2: "tx_work_fifo example_priv = 7"
    by (simp add: example_priv_def)
  from t h4 have c4: "bit (tx_pending_mask three_pending) (nat (tx_work_fifo three_pending) + 1)"
    "\<not> bit (tx_pending_mask three_pending) (nat (tx_work_fifo three_pending))"
    by blast+
  from t h5 have c5: "tx_work_fifo defect_state < uint (tx_fifo_start defect_state)"
    by blast
  show ?thesis
    using h1 f4 h2 c2 h3 c3 h4 c4 h5 c5 by (intro conjI) simp_all
qed

text \<open>
  Claim C7, amended. Whenever the fifo computed falls below the first fifo of the pool,
  the work handler logs the defect and returns at once: apart from the log the state is
  as it was, so no fifo is marked pending, nothing is sent on the bus and no counter
  changes.
\<close>

theorem scheduling_defect_logged_only:
  assumes "tx_work_fifo priv < uint (tx_fifo_start priv)"
  shows "mcp2517fd_tx_work_handler d0 priv
           = Some (priv\<lparr>dev_log := dev_log priv @ [Err_tx_fifo_not_valid (tx_work_fifo priv)]\<rparr>)"
  using assms by (rule tx_work_handler_defect)

theorem scheduling_defect_logged_only_witness:
  "tx_work_fifo defect_state < uint (tx_fifo_start defect_state) \<and>
   mcp2517fd_tx_work_handler zero_bytes defect_state
     = Some (defect_state\<lparr>dev_log := dev_log defect_state
                                        @ [Err_tx_fifo_not_valid (tx_work_fifo defect_state)]\<rparr>)"
proof -
  have f: "tx_work_fifo defect_state = 0"
    by code_simp
  have h: "tx_work_fifo defect_state < uint (tx_fifo_start defect_state)"
    unfolding f by (simp add: defect_state_def example_priv_def)
  from scheduling_defect_logged_only [OF h, of zero_bytes] h show ?thesis
    by (intro conjI)
qed

section \<open>The interrupt thread\<close>

lemma and_BIT_neq_0: "x AND BIT i \<noteq> 0 \<longleftrightarrow> bit x i"
proof
  assume "x AND BIT i \<noteq> 0"
  then obtain n where "bit (x AND BIT i) n"
    by (auto simp add: bit_eq_iff)
  then show "bit x i"
    by (auto simp add: bit_simps bit_BIT)
next
  assume b: "bit x i"
  then have "i < 32" using bit_imp_le_length [of x i] by simp
  with b have "bit (x AND BIT i) i"
    by (simp add: bit_simps bit_BIT)
  then show "x AND BIT i \<noteq> 0"
    by auto
qed






lemma can_ist_round_eq:
  "can_ist_round tef0 priv =
     (if force_quit priv \<noteq> 0 then Inl (IRQ_HANDLED, priv)
      else if fst (status_read priv) \<noteq> 0 then Inl (status_read priv)
      else if st_intf (status (snd (status_read priv)))
                AND drop_bit CAN_INT_IE_SHIFT (st_intf (status (snd (status_read priv)))) = 0
      then Inl (IRQ_HANDLED, snd (status_read priv))
      else if fst (mcp2517fd_can_ist_handle_status tef0 (snd (status_read priv))) \<noteq> 0
      then Inl (mcp2517fd_can_ist_handle_status tef0 (snd (status_read priv)))
      else Inr (snd (mcp2517fd_can_ist_handle_status tef0 (snd (status_read priv)))))"
  by (simp add: can_ist_round_def status_read_def Let_def case_prod_beta)

lemma enabled_flags_none:
  "(w :: u32) AND drop_bit CAN_INT_IE_SHIFT w = 0 \<longleftrightarrow> (\<forall>n<16. \<not> (bit w n \<and> bit w (16 + n)))"
proof
  assume z: "w AND drop_bit CAN_INT_IE_SHIFT w = 0"
  show "\<forall>n<16. \<not> (bit w n \<and> bit w (16 + n))"
  proof (intro allI impI notI)
    fix n :: nat assume "n < 16" and "bit w n \<and> bit w (16 + n)"
    then have "bit (w AND drop_bit CAN_INT_IE_SHIFT w) n"
      by (simp add: bit_simps CAN_INT_IE_SHIFT_def)
    with z show False by simp
  qed
next
  assume a: "\<forall>n<16. \<not> (bit w n \<and> bit w (16 + n))"
  show "w AND drop_bit CAN_INT_IE_SHIFT w = 0"
  proof (rule bit_word_eqI)
    fix n :: nat assume "n < LENGTH(32)"
    show "bit (w AND drop_bit CAN_INT_IE_SHIFT w) n = bit (0 :: u32) n"
    proof (cases "n < 16")
      case True
      with a show ?thesis by (auto simp add: bit_simps CAN_INT_IE_SHIFT_def)
    next
      case False
      then have "\<not> bit w (16 + n)"
        using bit_imp_le_length [of w "16 + n"] by auto
      then show ?thesis by (simp add: bit_simps CAN_INT_IE_SHIFT_def)
    qed
  qed
qed

text \<open>
  Claim C5 at a concrete run. The completion ring is configured with as many slots as
  there are transmit fifos (\<^verbatim>\<open>FSIZE + 1 = 7\<close>), but the end address that the driver keeps
  for its cursor covers eight slots of 12 bytes. After seven completions retired from
  the start of the ring, the seven pending bits are cleared and the cursor stands at
  offset \<open>7 * 12\<close>, not at the start, where \<open>(0 + 7) mod 7\<close> puts it.
\<close>

theorem tef_cursor_after_seven_completions:
  "drop_bit CAN_TEFCON_FSIZE_SHIFT (setup_fifo_tefcon example_priv AND CAN_TEFCON_FSIZE_MASK) + 1 = 7 \<and>
   tef_address_start (setup_fifo_tef_address 0 example_priv) = 0 \<and>
   tef_address_end (setup_fifo_tef_address 0 example_priv) = 8 * 12 - 1 \<and>
   map_option tx_pending_mask seven_completions_retired = Some 0 \<and>
   map_option tef_address seven_completions_retired = Some (7 * 12) \<and>
   map_option tef_address seven_completions_retired \<noteq> Some (0 + of_nat ((0 + 7) mod 7) * 12)"
  by code_simp

section \<open>The receive drain\<close>











lemma is_read_rx_xfers [simp]:
  "is_read (rx_read_xfer priv run)" "\<not> is_read (rx_uinc_xfer f)"
  by (simp_all add: rx_read_xfer_def rx_uinc_xfer_def)




section \<open>The interrupt dispatcher\<close>

lemma handle_rxfifo_status:
  "status (snd (mcp2517fd_can_ist_handle_rxfifo priv fifo)) = status priv"
  by (simp add: mcp2517fd_can_ist_handle_rxfifo_def Let_def case_prod_beta
      mcp2517fd_can_transform_rx_fd_def mcp2517fd_can_transform_rx_normal_def)

lemma rxif_handle_run_status:
  "status (snd (rxif_handle_run fs priv)) = status priv"
proof (induction fs arbitrary: priv)
  case Nil
  show ?case by simp
next
  case (Cons f fs)
  have "status (snd (rxif_handle_run fs (snd (mcp2517fd_can_ist_handle_rxfifo priv f))))
          = status priv"
    by (simp only: Cons.IH handle_rxfifo_status)
  then show ?case
    using handle_rxfifo_status [of priv f] by (simp add: case_prod_beta)
qed

lemma rxif_read_run_status:
  "status (snd (snd (snd (rxif_read_run fifo_size i lim msk priv)))) = status priv"
  by (simp add: rxif_read_run_def Let_def case_prod_beta rxif_handle_run_status)

lemma rxif_scan_status:
  "status (snd (rxif_scan fifo_size i lim msk priv)) = status priv"
proof (induction fifo_size i lim msk priv rule: rxif_scan.induct)
  case (1 fifo_size i lim msk priv)
  show ?case
  proof (cases "i < lim")
    case False
    then show ?thesis
      by (subst rxif_scan.simps) simp
  next
    case lt: True
    show ?thesis
    proof (cases "msk AND BIT i \<noteq> 0")
      case False
      have "rxif_scan fifo_size i lim msk priv = rxif_scan fifo_size (i + 1) lim msk priv"
        using lt False by (subst rxif_scan.simps) simp
      then show ?thesis
        using "1.IH"(2) [OF lt False] by simp
    next
      case True
      obtain j msk' ret p1 where r: "rxif_read_run fifo_size i lim msk priv = (j, msk', ret, p1)"
        by (metis prod_cases4)
      have s1: "status p1 = status priv"
        using rxif_read_run_status [of fifo_size i lim msk priv] by (simp add: r)
      show ?thesis
      proof (cases "ret = 0")
        case False
        have "rxif_scan fifo_size i lim msk priv = (ret, p1)"
          using lt True False by (subst rxif_scan.simps) (simp add: r)
        then show ?thesis by (simp add: s1)
      next
        case z: True
        have u: "rxif_scan fifo_size i lim msk priv = rxif_scan fifo_size (j + 1) lim msk' p1"
          using lt True z by (subst rxif_scan.simps) (simp add: r)
        have "status (snd (rxif_scan fifo_size (j + 1) lim msk' p1)) = status p1"
          by (rule "1.IH"(1) [OF lt True r [symmetric] refl refl]) (simp add: z)
        then show ?thesis by (simp add: u s1)
      qed
    qed
  qed
qed

lemma handle_rxif_status:
  "status (snd (mcp2517fd_can_ist_handle_rxif priv)) = status priv"
  by (simp add: mcp2517fd_can_ist_handle_rxif_def Let_def rxif_scan_status)

lemma tefif_body_status:
  "status (snd (snd (tefif_body tef msk priv))) = status priv"
  by (simp add: tefif_body_def Let_def case_prod_beta)

lemma tefif_loop_status:
  "status (snd (tefif_loop n tef msk priv)) = status priv"
proof (induction n arbitrary: tef msk priv)
  case 0
  show ?case by simp
next
  case (Suc n)
  show ?case
    using tefif_body_status [of tef msk priv]
    by (simp add: case_prod_beta Suc.IH)
qed

lemma handle_tefif_status:
  "status (snd (mcp2517fd_can_ist_handle_tefif tef0 priv)) = status priv"
  "fst (mcp2517fd_can_ist_handle_tefif tef0 priv) = 0"
  by (simp_all add: mcp2517fd_can_ist_handle_tefif_def Let_def case_prod_beta tefif_loop_status)

lemma status_read_xfers:
  "spi_xfers (spi (snd (status_read priv))) = spi_xfers (spi priv) @ [status_read_xfer]"
  by (simp add: status_read_def mcp2517fd_cmd_readn_eq Let_def status_read_xfer_def)

lemma handle_status_eq:
  "mcp2517fd_can_ist_handle_status tef0 q =
     (let rx = (if bit (st_intf (status q)) 1 then mcp2517fd_can_ist_handle_rxif q else (0, q));
          tef = (if bit (st_intf (status q)) 4
                 then mcp2517fd_can_ist_handle_tefif tef0 (snd rx) else (0, snd rx));
          ov = (if st_rxovif (status q) \<noteq> 0
                then mcp2517fd_can_ist_handle_rxovif (snd tef) else (0, snd tef))
      in if fst rx \<noteq> 0 then rx else if fst ov \<noteq> 0 then ov else (0, snd ov))"
proof -
  have f: "st_intf (status q) AND CAN_INT_RXIF \<noteq> 0 \<longleftrightarrow> bit (st_intf (status q)) 1"
    "st_intf (status q) AND CAN_INT_TEFIF \<noteq> 0 \<longleftrightarrow> bit (st_intf (status q)) 4"
    by (simp_all only: CAN_INT_RXIF_def CAN_INT_TEFIF_def and_BIT_neq_0)
  have s1: "status (snd (if b then mcp2517fd_can_ist_handle_rxif q else (0, q))) = status q" for b
    by (simp add: handle_rxif_status)
  have s2: "status (snd (if b then mcp2517fd_can_ist_handle_tefif tef0 p else (0, p))) = status p"
    "fst (if b then mcp2517fd_can_ist_handle_tefif tef0 p else (0, p)) = 0" for b p
    by (simp_all add: handle_tefif_status)
  show ?thesis
    by (simp add: mcp2517fd_can_ist_handle_status_def f Let_def case_prod_beta s1 s2
        cong: if_cong)
qed

lemma can_ist_quit:
  assumes "force_quit p \<noteq> 0 \<or> stop k"
  shows "mcp2517fd_can_ist tef0 stop k p
           = Some (IRQ_HANDLED, if stop k then set_force_quit p else p)"
proof -
  define p' where "p' = (if stop k then set_force_quit p else p)"
  have "force_quit p' \<noteq> 0"
    using assms by (cases "stop k") (simp_all add: p'_def set_force_quit_def)
  then have "can_ist_round tef0 p' = Inl (IRQ_HANDLED, p')"
    by (simp add: can_ist_round_eq)
  then have "mcp2517fd_can_ist tef0 stop k p = Some (IRQ_HANDLED, p')"
    unfolding p'_def by (subst mcp2517fd_can_ist.simps) simp
  then show ?thesis
    by (simp only: p'_def)
qed

lemma can_ist_after_rounds:
  "(\<forall>j<n. \<not> stop (k + j)) \<Longrightarrow> stop (k + n) \<Longrightarrow>
     mcp2517fd_can_ist tef0 stop k p =
       Some (case can_ist_rounds tef0 n p of
               Inl r \<Rightarrow> r
             | Inr p' \<Rightarrow> (IRQ_HANDLED, set_force_quit p'))"
proof (induction n arbitrary: k p)
  case 0
  then show ?case
    by (simp add: can_ist_quit)
next
  case (Suc n)
  from Suc.prems(1) have k: "\<not> stop k"
    by (metis add.right_neutral zero_less_Suc)
  have unf: "mcp2517fd_can_ist tef0 stop k p =
               (case can_ist_round tef0 p of
                  Inl r \<Rightarrow> Some r
                | Inr p' \<Rightarrow> mcp2517fd_can_ist tef0 stop (k + 1) p')"
    using k by (subst mcp2517fd_can_ist.simps) simp
  show ?case
  proof (cases "can_ist_round tef0 p")
    case (Inl r)
    then show ?thesis
      by (simp add: unf)
  next
    case (Inr p')
    have a: "\<forall>j<n. \<not> stop (k + 1 + j)"
      using Suc.prems(1) by (metis Suc_less_eq add.assoc plus_1_eq_Suc)
    have b: "stop (k + 1 + n)"
      using Suc.prems(2) by simp
    show ?thesis
      using Suc.IH [OF a b, of p'] by (simp add: unf Inr)
  qed
qed

lemma can_ist_round_service:
  assumes "force_quit p = 0" and "\<not> stop k"
  shows "mcp2517fd_can_ist tef0 stop k p =
        (let q = snd (status_read p);
             rx = (if bit (st_intf (status q)) 1
                   then mcp2517fd_can_ist_handle_rxif q else (0, q));
             tef = (if bit (st_intf (status q)) 4
                    then mcp2517fd_can_ist_handle_tefif tef0 (snd rx) else (0, snd rx));
             ov = (if st_rxovif (status q) \<noteq> 0
                   then mcp2517fd_can_ist_handle_rxovif (snd tef) else (0, snd tef))
         in if fst (status_read p) \<noteq> 0 then Some (status_read p)
            else if \<forall>b<16. \<not> (bit (st_intf (status q)) b \<and> bit (st_intf (status q)) (16 + b))
            then Some (IRQ_HANDLED, q)
            else if fst rx \<noteq> 0 then Some rx
            else if fst ov \<noteq> 0 then Some ov
            else mcp2517fd_can_ist tef0 stop (k + 1) (snd ov))"
proof -
  define q where "q = snd (status_read p)"
  define rx where
    "rx = (if bit (st_intf (status q)) 1 then mcp2517fd_can_ist_handle_rxif q else (0, q))"
  define tef where
    "tef = (if bit (st_intf (status q)) 4
            then mcp2517fd_can_ist_handle_tefif tef0 (snd rx) else (0, snd rx))"
  define ov where
    "ov = (if st_rxovif (status q) \<noteq> 0
           then mcp2517fd_can_ist_handle_rxovif (snd tef) else (0, snd tef))"
  have hs: "mcp2517fd_can_ist_handle_status tef0 q
              = (if fst rx \<noteq> 0 then rx else if fst ov \<noteq> 0 then ov else (0, snd ov))"
    unfolding handle_status_eq Let_def rx_def [symmetric] tef_def [symmetric] ov_def [symmetric]
    by (rule refl)
  have unf: "mcp2517fd_can_ist tef0 stop k p =
               (case can_ist_round tef0 p of
                  Inl r \<Rightarrow> Some r
                | Inr p' \<Rightarrow> mcp2517fd_can_ist tef0 stop (k + 1) p')"
    using assms(2) by (subst mcp2517fd_can_ist.simps) simp
  have ov0: "fst ov = 0 \<Longrightarrow> (0, snd ov) = ov"
    by (cases ov) simp
  have "mcp2517fd_can_ist tef0 stop k p =
         (if fst (status_read p) \<noteq> 0 then Some (status_read p)
            else if \<forall>b<16. \<not> (bit (st_intf (status q)) b \<and> bit (st_intf (status q)) (16 + b))
            then Some (IRQ_HANDLED, q)
            else if fst rx \<noteq> 0 then Some rx
            else if fst ov \<noteq> 0 then Some ov
            else mcp2517fd_can_ist tef0 stop (k + 1) (snd ov))"
    unfolding unf can_ist_round_eq q_def [symmetric] hs enabled_flags_none [symmetric]
    using assms(1) by (simp add: ov0)
  then show ?thesis
    unfolding Let_def q_def [symmetric] rx_def [symmetric] tef_def [symmetric] ov_def [symmetric] .
qed

text \<open>
  Claim C9. \<^verbatim>\<open>force_quit\<close> is tested at the head of every round of the loop of
  \<^verbatim>\<open>mcp2517fd_can_ist\<close>, whichever round \<open>k\<close> it is: when the flag is set there, be it
  from the entry or by the write of the other thread since the round before, the
  function returns \<^verbatim>\<open>IRQ_HANDLED\<close> with the state as it is, without a status read or any
  handling, whatever the device has raised. So when the flag is first found set at the
  head of the round that comes \<open>n\<close> rounds after round \<open>k\<close>, the loop does these \<open>n\<close>
  rounds and nothing more: the result is that of these rounds if the function returns
  within them, and otherwise their state with only the flag changed. A round that finds
  the flag clear reads the status block in one transfer. If the read fails the function
  returns its error. If no enabled interrupt flag is raised in the block just read (no
  bit \<open>b\<close> below 16 of the interrupt register is set together with its enable bit
  \<open>16 + b\<close>) the function returns
  \<^verbatim>\<open>IRQ_HANDLED\<close>, the state being the one after the read. Otherwise the round does the
  receive drain if the receive flag (bit 1) is raised, then the completion retirement if
  the completion flag (bit 4) is raised, then the overflow recovery if any fifo shows an
  overflow, all on the block just read, and, unless a handler fails, the loop goes into
  the next round from the state so reached.
\<close>

theorem interrupt_dispatch_loop:
  "(force_quit p \<noteq> 0 \<or> stop k \<longrightarrow>
      mcp2517fd_can_ist tef0 stop k p
        = Some (IRQ_HANDLED, if stop k then set_force_quit p else p)) \<and>
   ((\<forall>j<n. \<not> stop (k + j)) \<and> stop (k + n) \<longrightarrow>
      mcp2517fd_can_ist tef0 stop k p =
        Some (case can_ist_rounds tef0 n p of
                Inl r \<Rightarrow> r
              | Inr p' \<Rightarrow> (IRQ_HANDLED, set_force_quit p'))) \<and>
   (force_quit p = 0 \<and> \<not> stop k \<longrightarrow>
      spi_xfers (spi (snd (status_read p))) = spi_xfers (spi p) @ [status_read_xfer] \<and>
      mcp2517fd_can_ist tef0 stop k p =
        (let q = snd (status_read p);
             rx = (if bit (st_intf (status q)) 1
                   then mcp2517fd_can_ist_handle_rxif q else (0, q));
             tef = (if bit (st_intf (status q)) 4
                    then mcp2517fd_can_ist_handle_tefif tef0 (snd rx) else (0, snd rx));
             ov = (if st_rxovif (status q) \<noteq> 0
                   then mcp2517fd_can_ist_handle_rxovif (snd tef) else (0, snd tef))
         in if fst (status_read p) \<noteq> 0 then Some (status_read p)
            else if \<forall>b<16. \<not> (bit (st_intf (status q)) b \<and> bit (st_intf (status q)) (16 + b))
            then Some (IRQ_HANDLED, q)
            else if fst rx \<noteq> 0 then Some rx
            else if fst ov \<noteq> 0 then Some ov
            else mcp2517fd_can_ist tef0 stop (k + 1) (snd ov)))"
proof (intro conjI impI)
  assume "force_quit p \<noteq> 0 \<or> stop k"
  then show "mcp2517fd_can_ist tef0 stop k p
        = Some (IRQ_HANDLED, if stop k then set_force_quit p else p)"
    by (rule can_ist_quit)
next
  assume "(\<forall>j<n. \<not> stop (k + j)) \<and> stop (k + n)"
  then show "mcp2517fd_can_ist tef0 stop k p =
        Some (case can_ist_rounds tef0 n p of
                Inl r \<Rightarrow> r
              | Inr p' \<Rightarrow> (IRQ_HANDLED, set_force_quit p'))"
    by (intro can_ist_after_rounds) simp_all
next
  show "spi_xfers (spi (snd (status_read p))) = spi_xfers (spi p) @ [status_read_xfer]"
    by (rule status_read_xfers)
next
  assume "force_quit p = 0 \<and> \<not> stop k"
  then show "mcp2517fd_can_ist tef0 stop k p =
        (let q = snd (status_read p);
             rx = (if bit (st_intf (status q)) 1
                   then mcp2517fd_can_ist_handle_rxif q else (0, q));
             tef = (if bit (st_intf (status q)) 4
                    then mcp2517fd_can_ist_handle_tefif tef0 (snd rx) else (0, snd rx));
             ov = (if st_rxovif (status q) \<noteq> 0
                   then mcp2517fd_can_ist_handle_rxovif (snd tef) else (0, snd tef))
         in if fst (status_read p) \<noteq> 0 then Some (status_read p)
            else if \<forall>b<16. \<not> (bit (st_intf (status q)) b \<and> bit (st_intf (status q)) (16 + b))
            then Some (IRQ_HANDLED, q)
            else if fst rx \<noteq> 0 then Some rx
            else if fst ov \<noteq> 0 then Some ov
            else mcp2517fd_can_ist tef0 stop (k + 1) (snd ov))"
    by (intro can_ist_round_service) simp_all
qed

theorem interrupt_dispatch_loop_witness:
  "(force_quit quit_requested \<noteq> 0 \<and>
    bit (st_intf (status (snd (status_read quit_requested)))) 1 \<and>
    bit (st_intf (status (snd (status_read quit_requested)))) (16 + 1) \<and>
    spi_xfers (spi quit_requested) = [] \<and>
    mcp2517fd_can_ist example_tef0 no_stop 0 quit_requested
      = Some (IRQ_HANDLED, quit_requested)) \<and>
   (\<not> stop_at_2 0 \<and> \<not> stop_at_2 1 \<and> stop_at_2 2 \<and>
    map_option
      (\<lambda>(ret, p). (ret, force_quit p, length (filter ((=) status_read_xfer) (spi_xfers (spi p))),
                   spi_xfers (spi p), length (netif_rx (net p)), tx_pending_mask p,
                   rx_over_errors (net p)))
      (mcp2517fd_can_ist example_tef0 stop_at_2 0 work_for_ever)
      = Some (IRQ_HANDLED, 1, 2,
              [status_read_xfer,
               rx_read_xfer example_priv (8, 2), rx_uinc_xfer 8, rx_uinc_xfer 9,
               rx_read_xfer example_priv (11, 1), rx_uinc_xfer 11,
               Spi_write_then_read [0x34, 0x00] 12, Spi_write [0x20, 0x41, 0x01],
               rxovif_clear_xfer 8,
               status_read_xfer,
               rx_read_xfer example_priv (8, 2), rx_uinc_xfer 8, rx_uinc_xfer 9,
               rx_read_xfer example_priv (11, 1), rx_uinc_xfer 11,
               rxovif_clear_xfer 8],
              9, 0, 2)) \<and>
   (force_quit work_once = 0 \<and> \<not> no_stop 0 \<and> fst (status_read work_once) = 0 \<and>
    st_intf (status (snd (status_read work_once))) = 0x00120012 \<and>
    st_rxif (status (snd (status_read work_once))) = 0x00000B00 \<and>
    st_rxovif (status (snd (status_read work_once))) = 0x00000100 \<and>
    spi_xfers (spi (snd (status_read work_once))) = [status_read_xfer] \<and>
    map_option
      (\<lambda>(ret, p). (ret, force_quit p, spi_xfers (spi p), length (netif_rx (net p)),
                   tx_pending_mask p, rx_over_errors (net p)))
      (mcp2517fd_can_ist example_tef0 no_stop 0 work_once)
      = Some (IRQ_HANDLED, 0,
              [status_read_xfer,
               rx_read_xfer example_priv (8, 2), rx_uinc_xfer 8, rx_uinc_xfer 9,
               rx_read_xfer example_priv (11, 1), rx_uinc_xfer 11,
               Spi_write_then_read [0x34, 0x00] 12, Spi_write [0x20, 0x41, 0x01],
               rxovif_clear_xfer 8,
               status_read_xfer],
              5, 0, 1)) \<and>
   (force_quit bus_failing = 0 \<and> \<not> no_stop 0 \<and> fst (status_read bus_failing) = - 5 \<and>
    mcp2517fd_can_ist example_tef0 no_stop 0 bus_failing = Some (status_read bus_failing))"
proof -
  note t1 = interrupt_dispatch_loop
    [where p = quit_requested and stop = no_stop and k = 0 and ?tef0.0 = example_tef0 and n = 0,
      THEN conjunct1]
  note t2 = interrupt_dispatch_loop
    [where p = work_for_ever and stop = stop_at_2 and k = 0 and ?tef0.0 = example_tef0 and n = 2,
      THEN conjunct2, THEN conjunct1]
  note t3 = interrupt_dispatch_loop
    [where p = work_once and stop = no_stop and k = 0 and ?tef0.0 = example_tef0 and n = 0,
      THEN conjunct2, THEN conjunct2]
  note t4 = interrupt_dispatch_loop
    [where p = bus_failing and stop = no_stop and k = 0 and ?tef0.0 = example_tef0 and n = 0,
      THEN conjunct2, THEN conjunct2]
  have h1: "force_quit quit_requested \<noteq> 0"
    "bit (st_intf (status (snd (status_read quit_requested)))) 1"
    "bit (st_intf (status (snd (status_read quit_requested)))) (16 + 1)"
    "spi_xfers (spi quit_requested) = []"
    by code_simp+
  have n1: "\<not> no_stop 0"
    by (simp add: no_stop_def)
  from t1 h1(1) n1 have c1: "mcp2517fd_can_ist example_tef0 no_stop 0 quit_requested
      = Some (IRQ_HANDLED, quit_requested)"
    by simp
  have h2: "\<not> stop_at_2 0" "\<not> stop_at_2 1" "stop_at_2 2"
    by (simp_all add: stop_at_2_def)
  have q2: "(\<forall>j<2. \<not> stop_at_2 (0 + j)) \<and> stop_at_2 (0 + 2)"
    by (simp add: stop_at_2_def)
  from t2 q2 have e2: "mcp2517fd_can_ist example_tef0 stop_at_2 0 work_for_ever =
        Some (case can_ist_rounds example_tef0 2 work_for_ever of
                Inl r \<Rightarrow> r
              | Inr p' \<Rightarrow> (IRQ_HANDLED, set_force_quit p'))"
    by (rule mp)
  have c2: "map_option
      (\<lambda>(ret, p). (ret, force_quit p, length (filter ((=) status_read_xfer) (spi_xfers (spi p))),
                   spi_xfers (spi p), length (netif_rx (net p)), tx_pending_mask p,
                   rx_over_errors (net p)))
      (mcp2517fd_can_ist example_tef0 stop_at_2 0 work_for_ever)
      = Some (IRQ_HANDLED, 1, 2,
              [status_read_xfer,
               rx_read_xfer example_priv (8, 2), rx_uinc_xfer 8, rx_uinc_xfer 9,
               rx_read_xfer example_priv (11, 1), rx_uinc_xfer 11,
               Spi_write_then_read [0x34, 0x00] 12, Spi_write [0x20, 0x41, 0x01],
               rxovif_clear_xfer 8,
               status_read_xfer,
               rx_read_xfer example_priv (8, 2), rx_uinc_xfer 8, rx_uinc_xfer 9,
               rx_read_xfer example_priv (11, 1), rx_uinc_xfer 11,
               rxovif_clear_xfer 8],
              9, 0, 2)"
    unfolding e2 by code_simp
  have h3: "force_quit work_once = 0" "fst (status_read work_once) = 0"
    "st_intf (status (snd (status_read work_once))) = 0x00120012"
    "st_rxif (status (snd (status_read work_once))) = 0x00000B00"
    "st_rxovif (status (snd (status_read work_once))) = 0x00000100"
    by code_simp+
  have x3: "spi_xfers (spi work_once) = []"
    by code_simp
  from t3 h3(1) n1 have e3:
    "spi_xfers (spi (snd (status_read work_once))) = spi_xfers (spi work_once) @ [status_read_xfer]"
    "mcp2517fd_can_ist example_tef0 no_stop 0 work_once =
        (let q = snd (status_read work_once);
             rx = (if bit (st_intf (status q)) 1
                   then mcp2517fd_can_ist_handle_rxif q else (0, q));
             tef = (if bit (st_intf (status q)) 4
                    then mcp2517fd_can_ist_handle_tefif example_tef0 (snd rx) else (0, snd rx));
             ov = (if st_rxovif (status q) \<noteq> 0
                   then mcp2517fd_can_ist_handle_rxovif (snd tef) else (0, snd tef))
         in if fst (status_read work_once) \<noteq> 0 then Some (status_read work_once)
            else if \<forall>b<16. \<not> (bit (st_intf (status q)) b \<and> bit (st_intf (status q)) (16 + b))
            then Some (IRQ_HANDLED, q)
            else if fst rx \<noteq> 0 then Some rx
            else if fst ov \<noteq> 0 then Some ov
            else mcp2517fd_can_ist example_tef0 no_stop (0 + 1) (snd ov))"
    by blast+
  have c3a: "spi_xfers (spi (snd (status_read work_once))) = [status_read_xfer]"
    using e3(1) by (simp add: x3)
  have c3: "map_option
      (\<lambda>(ret, p). (ret, force_quit p, spi_xfers (spi p), length (netif_rx (net p)),
                   tx_pending_mask p, rx_over_errors (net p)))
      (mcp2517fd_can_ist example_tef0 no_stop 0 work_once)
      = Some (IRQ_HANDLED, 0,
              [status_read_xfer,
               rx_read_xfer example_priv (8, 2), rx_uinc_xfer 8, rx_uinc_xfer 9,
               rx_read_xfer example_priv (11, 1), rx_uinc_xfer 11,
               Spi_write_then_read [0x34, 0x00] 12, Spi_write [0x20, 0x41, 0x01],
               rxovif_clear_xfer 8,
               status_read_xfer],
              5, 0, 1)"
    unfolding e3(2) by code_simp
  have h4: "force_quit bus_failing = 0" "fst (status_read bus_failing) = - 5"
    by code_simp+
  from t4 h4(1) n1 have "mcp2517fd_can_ist example_tef0 no_stop 0 bus_failing =
        (let q = snd (status_read bus_failing);
             rx = (if bit (st_intf (status q)) 1
                   then mcp2517fd_can_ist_handle_rxif q else (0, q));
             tef = (if bit (st_intf (status q)) 4
                    then mcp2517fd_can_ist_handle_tefif example_tef0 (snd rx) else (0, snd rx));
             ov = (if st_rxovif (status q) \<noteq> 0
                   then mcp2517fd_can_ist_handle_rxovif (snd tef) else (0, snd tef))
         in if fst (status_read bus_failing) \<noteq> 0 then Some (status_read bus_failing)
            else if \<forall>b<16. \<not> (bit (st_intf (status q)) b \<and> bit (st_intf (status q)) (16 + b))
            then Some (IRQ_HANDLED, q)
            else if fst rx \<noteq> 0 then Some rx
            else if fst ov \<noteq> 0 then Some ov
            else mcp2517fd_can_ist example_tef0 no_stop (0 + 1) (snd ov))"
    by blast
  then have c4: "mcp2517fd_can_ist example_tef0 no_stop 0 bus_failing
                   = Some (status_read bus_failing)"
    by (simp add: h4(2) Let_def)
  show ?thesis
    by (intro conjI h1 h2 h3 h4 n1 c1 c2 c3 c3a c4)
qed

end
